theory Spec2Isabelle
  imports Complex_Main "HOL-Library.Multiset"
begin

section \<open>Numbers and strings of the source language\<close>

text \<open>
  The program is TypeScript. Its \<open>number\<close> values are modelled as exact reals: every
  comparison, sum and product below is the mathematical one, so rounding error of
  binary floating point and the values NaN and Infinity are outside the model. Where the
  source starts an accumulator at \<open>Infinity\<close> or \<open>-Infinity\<close> the model says so at the
  definition. A \<open>string\<close> is a list of characters; \<open>null\<close> and \<open>undefined\<close> are
  \<open>None\<close>.
\<close>

text \<open>
  \<open>Math.round(x * 100) / 100\<close>: \<open>Math.round\<close> rounds to the nearest integer, a half
  towards plus infinity.
\<close>

definition Math_round :: "real \<Rightarrow> real" where
  "Math_round x = of_int \<lfloor>x + 1 / 2\<rfloor>"

definition round2 :: "real \<Rightarrow> real" where
  "round2 x = Math_round (x * 100) / 100"

text \<open>
  \<open>Math.max(...xs)\<close>: the largest argument, and \<open>-Infinity\<close> (here \<open>None\<close>) when
  there is none.
\<close>

definition Math_max :: "real list \<Rightarrow> real option" where
  "Math_max xs = (case xs of [] \<Rightarrow> None | x # ys \<Rightarrow> Some (fold max ys x))"

text \<open>\<open>Array.prototype.join\<close> on strings.\<close>

fun join :: "string \<Rightarrow> string list \<Rightarrow> string" where
  "join sep [] = []"
| "join sep [x] = x"
| "join sep (x # y # ys) = x @ sep @ join sep (y # ys)"

text \<open>
  How a number is printed is the language's business, not the program's: the two
  conversions the source uses (a template literal and \<open>toFixed\<close>) are parameters.
\<close>

record num_format =
  num_to_string :: "real \<Rightarrow> string"
  toFixed :: "real \<Rightarrow> nat \<Rightarrow> string"

section \<open>Data model (lib/schemas.ts)\<close>

datatype side = buy | sell

record Leg =
  instrument_name :: string
  side :: side
  amount :: real

record TradeSpec =
  underlying :: string
  strategy :: string
  expiry :: string
  legs :: "Leg list"
  max_cost_usd :: real
  max_loss_usd :: real
  explanation :: string

section \<open>SafetyGate (lib/safety.ts)\<close>

record SafetyConfig =
  maxTradeCostUsd :: real
  maxContractsPerLeg :: real
  maxSpreadPercent :: real
  safeModeEnabled :: bool

record SafetyCheckResult =
  passes_max_cost :: bool
  passes_max_contracts :: bool
  passes_spread_check :: bool
  spread_percent :: "real option"
  all_passed :: bool
  warnings :: "string list"
  errors :: "string list"

text \<open>
  Of a \<open>TradePreview\<close> the gate reads \<open>safety_checks\<close> only; the other fields the
  model keeps are the specification and the figures shown to the user.
\<close>

record TradePreview =
  tradeSpec :: TradeSpec
  total_estimated_cost :: real
  max_loss :: real
  max_gain :: "real option"
  preview_breakevens :: "real list"
  safety_checks :: SafetyCheckResult

record ExecutionVerdict =
  canExecute :: bool
  reason :: "string option"

text \<open>
  \<open>getSafetyConfig()\<close> reads the process environment on every call; the configuration
  it returns is the argument \<open>config\<close> of the two functions below.
\<close>

definition cost_error :: "num_format \<Rightarrow> SafetyConfig \<Rightarrow> real \<Rightarrow> string" where
  "cost_error fmt config estimatedCost =
     ''Trade cost ($'' @ toFixed fmt estimatedCost 2 @ '') exceeds maximum allowed ($''
       @ num_to_string fmt (maxTradeCostUsd config) @ '')''"

definition contracts_error :: "num_format \<Rightarrow> SafetyConfig \<Rightarrow> real \<Rightarrow> string" where
  "contracts_error fmt config maxContracts =
     ''Max contracts per leg ('' @ num_to_string fmt maxContracts @ '') exceeds limit (''
       @ num_to_string fmt (maxContractsPerLeg config) @ '')''"

definition spread_warning :: "num_format \<Rightarrow> SafetyConfig \<Rightarrow> real \<Rightarrow> string" where
  "spread_warning fmt config spreadPercent =
     ''Bid-ask spread ('' @ toFixed fmt spreadPercent 1 @ ''%) exceeds threshold (''
       @ num_to_string fmt (maxSpreadPercent config) @ ''%)''"

definition max_loss_warning :: "num_format \<Rightarrow> SafetyConfig \<Rightarrow> real \<Rightarrow> string" where
  "max_loss_warning fmt config maxLossUsd =
     ''Max loss ($'' @ num_to_string fmt maxLossUsd @ '') exceeds safety threshold ($''
       @ num_to_string fmt (maxTradeCostUsd config) @ '')''"

definition runSafetyChecks ::
  "num_format \<Rightarrow> SafetyConfig \<Rightarrow> TradeSpec \<Rightarrow> real \<Rightarrow> real option \<Rightarrow> SafetyCheckResult" where
  "runSafetyChecks fmt config spec estimatedCost spreadPercent =
     (let
        \<comment> \<open>Check 1: max trade cost\<close>
        p_cost = (estimatedCost \<le> maxTradeCostUsd config);
        errors1 = (if \<not> p_cost then [cost_error fmt config estimatedCost] else []);
        \<comment> \<open>Check 2: max contracts per leg; \<open>-Infinity\<close> is below every limit\<close>
        maxContracts = Math_max (map amount (legs spec));
        p_contracts = (case maxContracts of None \<Rightarrow> True
                       | Some m \<Rightarrow> m \<le> maxContractsPerLeg config);
        errors2 = errors1 @
          (case maxContracts of None \<Rightarrow> []
           | Some m \<Rightarrow> if \<not> p_contracts then [contracts_error fmt config m] else []);
        \<comment> \<open>Check 3: bid-ask spread\<close>
        p_spread = (case spreadPercent of None \<Rightarrow> True
                    | Some s \<Rightarrow> s \<le> maxSpreadPercent config);
        warnings1 = (case spreadPercent of
                       None \<Rightarrow> [''Could not calculate bid-ask spread - no liquidity data'']
                     | Some s \<Rightarrow> if \<not> p_spread then [spread_warning fmt config s] else []);
        \<comment> \<open>Check 4: max loss against the cost limit\<close>
        warnings2 = warnings1 @
          (if max_loss_usd spec > maxTradeCostUsd config
           then [max_loss_warning fmt config (max_loss_usd spec)] else []);
        p_all = (p_cost \<and> p_contracts \<and> (p_spread \<or> \<not> safeModeEnabled config))
      in \<lparr> passes_max_cost = p_cost,
           passes_max_contracts = p_contracts,
           passes_spread_check = p_spread,
           spread_percent = spreadPercent,
           all_passed = p_all,
           warnings = warnings2,
           errors = errors2 \<rparr>)"

definition cost_reason :: "num_format \<Rightarrow> SafetyConfig \<Rightarrow> string" where
  "cost_reason fmt config =
     ''Trade cost exceeds maximum of $'' @ num_to_string fmt (maxTradeCostUsd config)"

definition contracts_reason :: "num_format \<Rightarrow> SafetyConfig \<Rightarrow> string" where
  "contracts_reason fmt config =
     ''Contracts per leg exceeds maximum of '' @ num_to_string fmt (maxContractsPerLeg config)"

definition validateTradeBeforeExecution ::
  "num_format \<Rightarrow> SafetyConfig \<Rightarrow> TradePreview \<Rightarrow> ExecutionVerdict" where
  "validateTradeBeforeExecution fmt config preview =
     (if \<not> safeModeEnabled config then \<lparr> canExecute = True, reason = None \<rparr>
      else if \<not> passes_max_cost (safety_checks preview)
        then \<lparr> canExecute = False, reason = Some (cost_reason fmt config) \<rparr>
      else if \<not> passes_max_contracts (safety_checks preview)
        then \<lparr> canExecute = False, reason = Some (contracts_reason fmt config) \<rparr>
      else if length (errors (safety_checks preview)) > 0
        then \<lparr> canExecute = False,
               reason = Some (join ''; '' (errors (safety_checks preview))) \<rparr>
      else \<lparr> canExecute = True, reason = None \<rparr>)"

section \<open>RiskEngine: entry cost (lib/payoff.ts)\<close>

text \<open>
  \<open>premiums.get(name) || 0\<close>: a missing entry and a premium of zero both give zero.
\<close>

definition premium_of :: "(string \<rightharpoonup> real) \<Rightarrow> string \<Rightarrow> real" where
  "premium_of premiums name = (case premiums name of None \<Rightarrow> 0 | Some p \<Rightarrow> if p = 0 then 0 else p)"



section \<open>RiskEngine: payoff analysis (lib/payoff.ts)\<close>

record PayoffPoint =
  price :: real
  pnl :: real

record PayoffAnalysis =
  points :: "PayoffPoint list"
  maxLoss :: real
  maxGain :: "real option"  \<comment> \<open>\<open>None\<close> (null) is an unlimited gain\<close>
  breakevens :: "real list"

datatype option_type = C | P

record LegWithPrice = Leg +
  strike :: real
  optionType :: option_type
  premium :: real

definition is_upper :: "char \<Rightarrow> bool" where
  "is_upper c = (65 \<le> (of_char c :: nat) \<and> (of_char c :: nat) \<le> 90)"

definition is_digit :: "char \<Rightarrow> bool" where
  "is_digit c = (48 \<le> (of_char c :: nat) \<and> (of_char c :: nat) \<le> 57)"

text \<open>
  The regular expression \<open>/^[A-Z]+-\d{8}-(\d+)-([CP])$/\<close> on an instrument name: upper
  case letters, a dash, eight digits, a dash, digits, a dash, and \<open>C\<close> or \<open>P\<close> at the
  end. Neither character class contains the dash, so each run is the longest one and the
  match, when there is one, is unique. The result is the two groups.
\<close>

definition match_instrument :: "string \<Rightarrow> (string \<times> char) option" where
  "match_instrument name =
     (let letters = takeWhile is_upper name; r1 = dropWhile is_upper name
      in if letters = [] then None
         else case r1 of
           [] \<Rightarrow> None
         | c1 # r2 \<Rightarrow>
             if c1 \<noteq> CHR ''-'' \<or> length (take 8 r2) \<noteq> 8 \<or> \<not> list_all is_digit (take 8 r2)
             then None
             else case drop 8 r2 of
               [] \<Rightarrow> None
             | c2 # r3 \<Rightarrow>
                 (let digits = takeWhile is_digit r3; r4 = dropWhile is_digit r3
                  in if c2 \<noteq> CHR ''-'' \<or> digits = [] then None
                     else case r4 of
                       [c3, t] \<Rightarrow>
                         if c3 = CHR ''-'' \<and> (t = CHR ''C'' \<or> t = CHR ''P'')
                         then Some (digits, t) else None
                     | _ \<Rightarrow> None))"

text \<open>\<open>parseInt\<close> on a string of decimal digits.\<close>

definition parseInt :: "string \<Rightarrow> real" where
  "parseInt ds = of_nat (foldl (\<lambda>n c. 10 * n + (of_char c - 48)) 0 ds)"

definition parseLeg :: "Leg \<Rightarrow> real \<Rightarrow> LegWithPrice option" where
  "parseLeg leg prem =
     (case match_instrument (instrument_name leg) of
        None \<Rightarrow> None
      | Some (digits, t) \<Rightarrow>
          Some \<lparr> instrument_name = instrument_name leg, side = side leg, amount = amount leg,
                 strike = parseInt digits,
                 optionType = (if t = CHR ''C'' then C else P),
                 premium = prem \<rparr>)"

definition calculateLegPnl :: "LegWithPrice \<Rightarrow> real \<Rightarrow> real" where
  "calculateLegPnl leg underlyingPrice =
     (let intrinsicValue =
            (if optionType leg = C then max 0 (underlyingPrice - strike leg)
             else max 0 (strike leg - underlyingPrice));
          direction = (if side leg = buy then 1 else - 1)
      in (intrinsicValue - premium leg) * amount leg * direction)"

definition calculateTotalPnl :: "LegWithPrice list \<Rightarrow> real \<Rightarrow> real" where
  "calculateTotalPnl ls underlyingPrice =
     foldl (\<lambda>total leg. total + calculateLegPnl leg underlyingPrice) 0 ls"

text \<open>
  \<open>findBreakevens\<close> is always called with its default tolerance. The condition the
  source tests twice, that the P\&L at a point lies on the same side of zero as the P\&L
  before the crossing, is \<open>same_sign\<close>.
\<close>

definition tolerance :: real where
  "tolerance = 1 / 100"

definition same_sign :: "real \<Rightarrow> real \<Rightarrow> bool" where
  "same_sign prevPnl p = ((prevPnl < 0 \<and> p < 0) \<or> (prevPnl \<ge> 0 \<and> p \<ge> 0))"

text \<open>The bisection \<open>while (high - low > tolerance)\<close>; it returns the final interval.\<close>

lemma ceiling_half_less: "1 < (y::real) \<Longrightarrow> nat \<lceil>y / 2\<rceil> < nat \<lceil>y\<rceil>"
proof -
  assume y: "1 < y"
  then have c2: "2 \<le> \<lceil>y\<rceil>"
    by (simp add: le_ceiling_iff)
  then have r2: "(2::real) \<le> of_int \<lceil>y\<rceil>"
    by linarith
  have "y \<le> of_int \<lceil>y\<rceil>"
    by (rule le_of_int_ceiling)
  with r2 have "y / 2 \<le> of_int \<lceil>y\<rceil> - 1"
    by linarith
  then have "y / 2 \<le> of_int (\<lceil>y\<rceil> - 1)"
    by simp
  then have "\<lceil>y / 2\<rceil> \<le> \<lceil>y\<rceil> - 1"
    by (simp only: ceiling_le_iff)
  with c2 show ?thesis
    by linarith
qed

function bisect :: "LegWithPrice list \<Rightarrow> real \<Rightarrow> real \<Rightarrow> real \<Rightarrow> real \<times> real" where
  "bisect ls prevPnl low high =
     (if high - low > tolerance
      then let mid = (low + high) / 2; midPnl = calculateTotalPnl ls mid
           in if same_sign prevPnl midPnl then bisect ls prevPnl mid high
              else bisect ls prevPnl low mid
      else (low, high))"
  by pat_completeness auto
termination
proof (relation "measure (\<lambda>(ls, prevPnl, low, high). nat \<lceil>(high - low) / tolerance\<rceil>)")
  show "wf (measure (\<lambda>(ls, prevPnl, low, high). nat \<lceil>(high - low) / tolerance\<rceil>))"
    by simp
next
  fix ls :: "LegWithPrice list" and prevPnl low high mid midPnl :: real
  assume w: "tolerance < high - low" and m: "mid = (low + high) / 2"
  have "1 < (high - low) / tolerance"
    using w by (simp add: tolerance_def)
  then have less: "nat \<lceil>(high - low) / tolerance / 2\<rceil> < nat \<lceil>(high - low) / tolerance\<rceil>"
    by (rule ceiling_half_less)
  have e: "high - mid = (high - low) / 2" "mid - low = (high - low) / 2"
    by (simp_all add: m field_simps)
  have "(high - mid) / tolerance = (high - low) / tolerance / 2"
    and "(mid - low) / tolerance = (high - low) / tolerance / 2"
    unfolding e by simp_all
  then show "((ls, prevPnl, mid, high), (ls, prevPnl, low, high))
          \<in> measure (\<lambda>(ls, prevPnl, low, high). nat \<lceil>(high - low) / tolerance\<rceil>)"
    and "((ls, prevPnl, low, mid), (ls, prevPnl, low, high))
          \<in> measure (\<lambda>(ls, prevPnl, low, high). nat \<lceil>(high - low) / tolerance\<rceil>)"
    using less by simp_all
qed

text \<open>
  The scan \<open>for (price = minPrice + step; price <= maxPrice; price += step)\<close>, with the
  P\&L of the previous point and the breakevens found so far. With a step that is not
  positive the price never passes \<open>maxPrice\<close> once the loop is entered, and the source
  does not return: that is the value \<open>None\<close>.
\<close>

function scan ::
  "LegWithPrice list \<Rightarrow> real \<Rightarrow> real \<Rightarrow> real \<Rightarrow> real \<Rightarrow> real list \<Rightarrow> real list option" where
  "scan ls step maxPrice current prevPnl found =
     (if current \<le> maxPrice
      then if step \<le> 0 then None
           else let currentPnl = calculateTotalPnl ls current;
                    found' =
                      (if (prevPnl < 0 \<and> currentPnl \<ge> 0) \<or> (prevPnl \<ge> 0 \<and> currentPnl < 0)
                       then let (low, high) = bisect ls prevPnl (current - step) current
                            in found @ [round2 ((low + high) / 2)]
                       else found)
                in scan ls step maxPrice (current + step) currentPnl found'
      else Some found)"
  by pat_completeness auto
termination
proof (relation "measure (\<lambda>(ls, step, maxPrice, current, prevPnl, found).
                            nat (\<lfloor>(maxPrice - current) / step\<rfloor> + 1))")
  show "wf (measure (\<lambda>(ls, step, maxPrice, current, prevPnl, found).
                            nat (\<lfloor>(maxPrice - current) / step\<rfloor> + 1)))"
    by simp
next
  fix ls :: "LegWithPrice list" and step maxPrice current prevPnl currentPnl :: real
    and found found' :: "real list"
  assume le: "current \<le> maxPrice" and pos: "\<not> step \<le> 0"
  have "(maxPrice - (current + step)) / step = (maxPrice - current) / step - 1"
    using pos by (simp add: field_simps)
  moreover have "0 \<le> \<lfloor>(maxPrice - current) / step\<rfloor>"
    using le pos by simp
  ultimately show "((ls, step, maxPrice, current + step, currentPnl, found'),
           (ls, step, maxPrice, current, prevPnl, found))
          \<in> measure (\<lambda>(ls, step, maxPrice, current, prevPnl, found).
                            nat (\<lfloor>(maxPrice - current) / step\<rfloor> + 1))"
    by simp
qed

declare bisect.simps [simp del]
declare scan.simps [simp del]

definition findBreakevens :: "LegWithPrice list \<Rightarrow> real \<Rightarrow> real \<Rightarrow> real list option" where
  "findBreakevens ls minPrice maxPrice =
     (let step = (maxPrice - minPrice) / 1000;
          prevPnl = calculateTotalPnl ls minPrice
      in scan ls step maxPrice (minPrice + step) prevPnl [])"

text \<open>The parse loop at the head of \<open>calculatePayoff\<close>: legs that do not parse are dropped.\<close>

definition parse_legs :: "TradeSpec \<Rightarrow> (string \<rightharpoonup> real) \<Rightarrow> LegWithPrice list" where
  "parse_legs spec premiums =
     List.map_filter (\<lambda>leg. parseLeg leg (premium_of premiums (instrument_name leg))) (legs spec)"

definition sample_price :: "real \<Rightarrow> real \<Rightarrow> nat \<Rightarrow> real" where
  "sample_price minPrice maxPrice i = minPrice + (maxPrice - minPrice) * (of_nat i / 100)"

text \<open>\<open>effectiveMaxGain || 0\<close>: zero for null (and for zero).\<close>

definition or_zero :: "real option \<Rightarrow> real" where
  "or_zero g = (case g of None \<Rightarrow> 0 | Some v \<Rightarrow> if v = 0 then 0 else v)"

text \<open>
  \<open>calculatePayoff\<close>. The running minimum and maximum of the sampled P\&L start at
  \<open>Infinity\<close> and \<open>-Infinity\<close> in the source; the loop body runs 101 times, so the first
  sample replaces both, and the model starts them at the first sample. The result is
  \<open>None\<close> when \<open>findBreakevens\<close> does not return.
\<close>

definition calculatePayoff ::
  "TradeSpec \<Rightarrow> (string \<rightharpoonup> real) \<Rightarrow> real \<Rightarrow> PayoffAnalysis option" where
  "calculatePayoff spec premiums currentPrice =
     (case parse_legs spec premiums of
        [] \<Rightarrow> Some \<lparr> points = [], maxLoss = max_loss_usd spec, maxGain = None, breakevens = [] \<rparr>
      | l # rest \<Rightarrow>
          (let parsedLegs = l # rest;
               minStrike = fold min (map strike rest) (strike l);
               maxStrike = fold max (map strike rest) (strike l);
               priceRange = (if maxStrike - minStrike \<noteq> 0 then maxStrike - minStrike
                             else currentPrice * (2 / 10));
               minPrice = max 0 (minStrike - priceRange * (5 / 10));
               maxPrice = maxStrike + priceRange * (5 / 10);
               samples = map (\<lambda>i. let pr = sample_price minPrice maxPrice i
                                    in (pr, calculateTotalPnl parsedLegs pr)) [0..<101];
               pts = map (\<lambda>(pr, v). \<lparr> price = round2 pr, pnl = round2 v \<rparr>) samples;
               first = calculateTotalPnl parsedLegs (sample_price minPrice maxPrice 0);
               minPnl = fold min (map snd samples) first;
               maxPnl = fold max (map snd samples) first;
               hasShortCall = list_ex (\<lambda>l. side l = sell \<and> optionType l = C) parsedLegs;
               hasLongPut = list_ex (\<lambda>l. side l = buy \<and> optionType l = P) parsedLegs;
               pnlAtZero = calculateTotalPnl parsedLegs 0;
               effectiveMaxLoss = \<bar>minPnl\<bar>;
               gain1 = (if \<not> hasShortCall \<and>
                           list_ex (\<lambda>l. side l = buy \<and> optionType l = C) parsedLegs
                        then None else Some maxPnl);
               gain2 = (if hasLongPut \<and>
                           \<not> list_ex (\<lambda>l. side l = sell \<and> optionType l = P) parsedLegs
                        then Some (max (or_zero gain1) pnlAtZero) else gain1)
           in case findBreakevens parsedLegs minPrice maxPrice of
                None \<Rightarrow> None
              | Some bs \<Rightarrow>
                  Some \<lparr> points = pts,
                         maxLoss = round2 effectiveMaxLoss,
                         maxGain = map_option round2 gain2,
                         breakevens = bs \<rparr>))"

section \<open>The liquidity query (lib/lyra-tools.ts)\<close>

text \<open>
  The records of the exchange. Field names that another record of this development
  already uses carry a prefix. A price of a ticker is a string, or null.
\<close>

record OptionDetails =
  details_expiry :: real
  details_strike :: string
  option_type :: option_type

record LyraInstrument =
  lyra_instrument_name :: string
  instrument_type :: string
  underlying_currency :: string
  is_active :: bool
  tick_size :: string
  minimum_amount :: string
  option_details :: "OptionDetails option"

record OptionPricing =
  pricing_delta :: string
  pricing_gamma :: string
  pricing_theta :: string
  pricing_vega :: string
  pricing_iv :: string

record LyraTicker =
  ticker_instrument_name :: string
  best_bid_price :: "string option"
  best_ask_price :: "string option"
  best_bid_amount :: string
  best_ask_amount :: string
  mark_price :: string
  ticker_index_price :: string
  option_pricing :: "OptionPricing option"

record Pricing =
  bid :: "real option"
  ask :: "real option"
  mark :: real
  pricing_spread_percent :: "real option"
  delta :: "real option"
  iv :: "real option"

record InstrumentWithPricing = LyraInstrument +
  pricing :: "Pricing option"

record FindLiquidParams =
  params_underlying :: string
  params_option_type :: option_type
  min_days_to_expiry :: real
  max_days_to_expiry :: real
  strike_range_percent :: "real option"
  max_spread_percent :: "real option"

text \<open>\<open>x || d\<close> on an optional number: the default for undefined and for zero.\<close>

definition or_default :: "real option \<Rightarrow> real \<Rightarrow> real" where
  "or_default x d = (case x of None \<Rightarrow> d | Some v \<Rightarrow> if v = 0 then d else v)"

text \<open>
  \<open>s && s !== "0" ? parseFloat(s) : null\<close> on a price string: null for a missing or empty
  string and for the string \<open>0\<close>. \<open>parseFloat\<close> belongs to the language and is a
  parameter.
\<close>

definition live_price :: "(string \<Rightarrow> real) \<Rightarrow> string option \<Rightarrow> real option" where
  "live_price parseFloat s =
     (case s of None \<Rightarrow> None
      | Some str \<Rightarrow> if str \<noteq> [] \<and> str \<noteq> ''0'' then Some (parseFloat str) else None)"

text \<open>The filter by option type, expiry window and strike range.\<close>

definition in_range :: "(string \<Rightarrow> real) \<Rightarrow> FindLiquidParams \<Rightarrow> real \<Rightarrow> real \<Rightarrow> LyraInstrument \<Rightarrow> bool" where
  "in_range parseFloat params now index_price i =
     (let strikeRange = or_default (strike_range_percent params) 15;
          minExpiry = now + min_days_to_expiry params * 24 * 60 * 60 * 1000;
          maxExpiry = now + max_days_to_expiry params * 24 * 60 * 60 * 1000
      in case option_details i of
           None \<Rightarrow> False
         | Some d \<Rightarrow>
             if option_type d \<noteq> params_option_type params then False
             else let expiry = details_expiry d * 1000
                  in if expiry < minExpiry \<or> expiry > maxExpiry then False
                     else let strike = parseFloat (details_strike d);
                              minStrike = index_price * (1 - strikeRange / 100);
                              maxStrike = index_price * (1 + strikeRange / 100)
                          in if strike < minStrike \<or> strike > maxStrike then False else True)"

text \<open>
  The body of the loop over the filtered instruments: \<open>None\<close> where the source
  continues with the next instrument, the instrument with its pricing where it pushes.
\<close>

definition price_instrument ::
  "(string \<Rightarrow> real) \<Rightarrow> real \<Rightarrow> (string \<rightharpoonup> LyraTicker) \<Rightarrow> LyraInstrument
     \<Rightarrow> InstrumentWithPricing option" where
  "price_instrument parseFloat maxSpread tickers instrument =
     (case tickers (lyra_instrument_name instrument) of
        None \<Rightarrow> None
      | Some ticker \<Rightarrow>
          (let b = live_price parseFloat (best_bid_price ticker);
               a = live_price parseFloat (best_ask_price ticker);
               m = parseFloat (mark_price ticker);
               spreadPercent =
                 (case (b, a) of
                    (Some bv, Some av) \<Rightarrow>
                      if bv > 0
                      then let mid = (bv + av) / 2
                           in if mid > 0 then Some ((av - bv) / mid * 100) else None
                      else None
                  | _ \<Rightarrow> None);
               isLiquid = (b \<noteq> None \<and> a \<noteq> None \<and>
                           (case spreadPercent of None \<Rightarrow> True | Some sp \<Rightarrow> sp \<le> maxSpread))
           in if \<not> isLiquid then None
              else Some \<lparr> lyra_instrument_name = lyra_instrument_name instrument,
                          instrument_type = instrument_type instrument,
                          underlying_currency = underlying_currency instrument,
                          is_active = is_active instrument,
                          tick_size = tick_size instrument,
                          minimum_amount = minimum_amount instrument,
                          option_details = option_details instrument,
                          pricing = Some \<lparr> bid = b, ask = a, mark = m,
                            pricing_spread_percent = spreadPercent,
                            delta = (case option_pricing ticker of None \<Rightarrow> None
                                     | Some op \<Rightarrow> if pricing_delta op \<noteq> []
                                                 then Some (parseFloat (pricing_delta op)) else None),
                            iv = (case option_pricing ticker of None \<Rightarrow> None
                                  | Some op \<Rightarrow> if pricing_iv op \<noteq> []
                                              then Some (parseFloat (pricing_iv op)) else None) \<rparr> \<rparr>))"

text \<open>The sort key \<open>a.pricing?.spread_percent ?? 100\<close>.\<close>

definition spread_key :: "InstrumentWithPricing \<Rightarrow> real" where
  "spread_key r =
     (case pricing r of None \<Rightarrow> 100
      | Some pr \<Rightarrow> (case pricing_spread_percent pr of None \<Rightarrow> 100 | Some sp \<Rightarrow> sp))"

text \<open>
  \<open>executeFindLiquidOptions\<close>. What the three requests to the exchange answer (the index
  price, the instruments, the tickers by instrument name, a failed lookup being null) and
  the clock are arguments. \<open>Array.prototype.sort\<close> with the comparator
  \<open>spreadA - spreadB\<close> is a stable sort by the key.
\<close>

definition executeFindLiquidOptions ::
  "(string \<Rightarrow> real) \<Rightarrow> FindLiquidParams \<Rightarrow> real \<Rightarrow> real \<Rightarrow> LyraInstrument list
     \<Rightarrow> (string \<rightharpoonup> LyraTicker) \<Rightarrow> InstrumentWithPricing list" where
  "executeFindLiquidOptions parseFloat params now index_price instruments tickers =
     (let maxSpread = or_default (max_spread_percent params) 10;
          filtered = filter (in_range parseFloat params now index_price) instruments;
          results = List.map_filter (price_instrument parseFloat maxSpread tickers) filtered
      in sort_key spread_key results)"

section \<open>Schema validation of a TradeSpec (lib/schemas.ts)\<close>

text \<open>
  A JSON value, as \<open>JSON.parse\<close> returns it. The schemas are written with the
  combinators of the validation library; the model gives each combinator the library's
  meaning: a value of the wrong type (or a missing one) is an issue of code
  \<open>invalid_type\<close>, a failed refinement is an issue with the message the schema gives,
  an object schema reads its own keys and ignores the others, and the issues of all
  fields are collected, in the order of the schema.
\<close>

datatype json =
    JNull
  | JBool bool
  | JNum real
  | JStr string
  | JArr "json list"
  | JObj "(string \<times> json) list"

datatype path_elem = Key string | Index nat

datatype issue_code = invalid_type | too_small | invalid_enum_value

text \<open>An issue; the message is \<open>None\<close> where the library words it.\<close>

datatype zod_issue = Issue "path_elem list" issue_code "string option"

type_synonym 'a parsed = "zod_issue list + 'a"

fun ap :: "('a \<Rightarrow> 'b) parsed \<Rightarrow> 'a parsed \<Rightarrow> 'b parsed" where
  "ap (Inr f) (Inr x) = Inr (f x)"
| "ap (Inl e) (Inr x) = Inl e"
| "ap (Inr f) (Inl e) = Inl e"
| "ap (Inl e1) (Inl e2) = Inl (e1 @ e2)"

text \<open>\<open>z.string().min(1, msg)\<close>\<close>

definition zod_string_min1 :: "path_elem list \<Rightarrow> string \<Rightarrow> json option \<Rightarrow> string parsed" where
  "zod_string_min1 path msg v =
     (case v of
        Some (JStr str) \<Rightarrow> if length str < 1 then Inl [Issue path too_small (Some msg)] else Inr str
      | _ \<Rightarrow> Inl [Issue path invalid_type None])"

text \<open>\<open>z.number().positive(msg)\<close> and \<open>z.number().nonnegative(msg)\<close>\<close>

definition zod_number_positive :: "path_elem list \<Rightarrow> string \<Rightarrow> json option \<Rightarrow> real parsed" where
  "zod_number_positive path msg v =
     (case v of
        Some (JNum n) \<Rightarrow> if n \<le> 0 then Inl [Issue path too_small (Some msg)] else Inr n
      | _ \<Rightarrow> Inl [Issue path invalid_type None])"

definition zod_number_nonnegative :: "path_elem list \<Rightarrow> string \<Rightarrow> json option \<Rightarrow> real parsed" where
  "zod_number_nonnegative path msg v =
     (case v of
        Some (JNum n) \<Rightarrow> if n < 0 then Inl [Issue path too_small (Some msg)] else Inr n
      | _ \<Rightarrow> Inl [Issue path invalid_type None])"

text \<open>\<open>z.enum(["buy", "sell"])\<close>\<close>

definition zod_enum_side :: "path_elem list \<Rightarrow> json option \<Rightarrow> side parsed" where
  "zod_enum_side path v =
     (case v of
        Some (JStr str) \<Rightarrow>
          if str = ''buy'' then Inr buy
          else if str = ''sell'' then Inr sell
          else Inl [Issue path invalid_enum_value None]
      | _ \<Rightarrow> Inl [Issue path invalid_type None])"

definition LegSchema :: "path_elem list \<Rightarrow> json option \<Rightarrow> Leg parsed" where
  "LegSchema path v =
     (case v of
        Some (JObj members) \<Rightarrow>
          ap (ap (ap (Inr (\<lambda>n s a. \<lparr> instrument_name = n, side = s, amount = a \<rparr>))
                     (zod_string_min1 (path @ [Key ''instrument_name''])
                        ''Instrument name is required'' (map_of members ''instrument_name'')))
                 (zod_enum_side (path @ [Key ''side'']) (map_of members ''side'')))
             (zod_number_positive (path @ [Key ''amount''])
                ''Amount must be positive'' (map_of members ''amount''))
      | _ \<Rightarrow> Inl [Issue path invalid_type None])"

text \<open>\<open>z.array(LegSchema).min(1, msg)\<close>\<close>

fun collect :: "'a parsed list \<Rightarrow> 'a list parsed" where
  "collect [] = Inr []"
| "collect (r # rs) = ap (ap (Inr (#)) r) (collect rs)"

definition zod_legs :: "path_elem list \<Rightarrow> string \<Rightarrow> json option \<Rightarrow> Leg list parsed" where
  "zod_legs path msg v =
     (case v of
        Some (JArr xs) \<Rightarrow>
          ap (ap (Inr (\<lambda>u ls. ls))
                 (if length xs < 1 then Inl [Issue path too_small (Some msg)] else Inr ()))
             (collect (map (\<lambda>(i, x). LegSchema (path @ [Index i]) (Some x)) (enumerate 0 xs)))
      | _ \<Rightarrow> Inl [Issue path invalid_type None])"

text \<open>\<open>TradeSpecSchema.safeParse\<close>\<close>

definition TradeSpecSchema_safeParse :: "json \<Rightarrow> TradeSpec parsed" where
  "TradeSpecSchema_safeParse v =
     (case v of
        JObj members \<Rightarrow>
          ap (ap (ap (ap (ap (ap (ap
            (Inr (\<lambda>u s e l c m x. \<lparr> underlying = u, strategy = s, expiry = e, legs = l,
                                  max_cost_usd = c, max_loss_usd = m, explanation = x \<rparr>))
            (zod_string_min1 [Key ''underlying''] ''Underlying is required''
               (map_of members ''underlying'')))
            (zod_string_min1 [Key ''strategy''] ''Strategy is required''
               (map_of members ''strategy'')))
            (zod_string_min1 [Key ''expiry''] ''Expiry is required''
               (map_of members ''expiry'')))
            (zod_legs [Key ''legs''] ''At least one leg is required'' (map_of members ''legs'')))
            (zod_number_nonnegative [Key ''max_cost_usd''] ''Max cost must be non-negative''
               (map_of members ''max_cost_usd'')))
            (zod_number_nonnegative [Key ''max_loss_usd''] ''Max loss must be non-negative''
               (map_of members ''max_loss_usd'')))
            (zod_string_min1 [Key ''explanation''] ''Explanation is required''
               (map_of members ''explanation''))
      | _ \<Rightarrow> Inl [Issue [] invalid_type None])"

section \<open>IntentResolutionLoop (lib/agent-parser.ts)\<close>

subsection \<open>Extraction of the TradeSpec from the final text\<close>

text \<open>
  A character of a text is a code unit below 256. The white space of \<open>\s\<close> and of
  \<open>trim\<close> among these: tab, line feed, vertical tab, form feed, carriage return
  (9 to 13), space (32) and no-break space (160). The white space above 255 (U+1680,
  U+2000 to U+200A, U+2028, U+2029, U+202F, U+205F, U+3000, U+FEFF) has no character
  here.
\<close>

definition is_space :: "char \<Rightarrow> bool" where
  "is_space c = ((of_char c :: nat) = 32 \<or> (9 \<le> (of_char c :: nat) \<and> (of_char c :: nat) \<le> 13)
                 \<or> (of_char c :: nat) = 160)"

definition trim :: "string \<Rightarrow> string" where
  "trim str = rev (dropWhile is_space (rev (dropWhile is_space str)))"

text \<open>The text before and after the first occurrence of a pattern.\<close>

fun split_on :: "string \<Rightarrow> string \<Rightarrow> (string \<times> string) option" where
  "split_on pat [] = (if pat = [] then Some ([], []) else None)"
| "split_on pat (c # cs) =
     (if take (length pat) (c # cs) = pat then Some ([], drop (length pat) (c # cs))
      else case split_on pat cs of None \<Rightarrow> None | Some (b, a) \<Rightarrow> Some (c # b, a))"

text \<open>
  Group 1 of the first match of \<open>/```(?:json)?\s*([\s\S]*?)\s*```/\<close>. The match starts at
  the first fence; \<open>json\<close> and the white space after it are taken when they are there;
  the group is lazy, so it ends before the white space in front of the next fence. No
  white space and no letter of \<open>json\<close> is part of a fence, so backtracking finds no
  other match: where these choices find no closing fence there is none.
\<close>

definition fenced_match :: "string \<Rightarrow> string option" where
  "fenced_match text =
     (case split_on ''```'' text of
        None \<Rightarrow> None
      | Some (before, r1) \<Rightarrow>
          (let r2 = (if take 4 r1 = ''json'' then drop 4 r1 else r1);
               r3 = dropWhile is_space r2
           in case split_on ''```'' r3 of
                None \<Rightarrow> None
              | Some (body, after) \<Rightarrow> Some (rev (dropWhile is_space (rev body)))))"

text \<open>
  The first match of \<open>/\{[\s\S]*\}/\<close>: greedy, from the first opening brace to the last
  closing brace after it.
\<close>

definition object_match :: "string \<Rightarrow> string option" where
  "object_match text =
     (let r = dropWhile (\<lambda>c. c \<noteq> CHR ''{'') text
      in if CHR ''}'' \<in> set r then Some (rev (dropWhile (\<lambda>c. c \<noteq> CHR ''}'') (rev r)))
         else None)"

text \<open>
  The head of \<open>extractTradeSpec\<close>, up to the call of \<open>JSON.parse\<close>: the three
  assignments to \<open>jsonString\<close>. Both regular expressions are matched against \<open>text\<close>.
\<close>

definition json_candidate :: "string \<Rightarrow> string" where
  "json_candidate text =
     (let jsonString0 = trim text;
          jsonString1 = (case fenced_match text of Some g \<Rightarrow> g | None \<Rightarrow> jsonString0);
          jsonString2 = (case object_match text of Some m \<Rightarrow> m | None \<Rightarrow> jsonString1)
      in jsonString2)"

datatype agent_error =
    JsonParseFailed string
  | SchemaValidationFailed "zod_issue list"
  | UnexpectedState "string option" bool
  | IterationsExceeded nat

text \<open>
  \<open>extractTradeSpec\<close>. \<open>JSON.parse\<close> is a parameter: \<open>None\<close> where it throws.
\<close>

definition extractTradeSpec :: "(string \<Rightarrow> json option) \<Rightarrow> string \<Rightarrow> agent_error + TradeSpec" where
  "extractTradeSpec json_parse text =
     (case json_parse (json_candidate text) of
        None \<Rightarrow> Inl (JsonParseFailed (take 200 text))
      | Some parsed \<Rightarrow>
          (case TradeSpecSchema_safeParse parsed of
             Inl issues \<Rightarrow> Inl (SchemaValidationFailed issues)
           | Inr spec \<Rightarrow> Inr spec))"

subsection \<open>The loop of \<open>parseIntent\<close>\<close>

datatype content_block =
    ToolUseBlock string string json  \<comment> \<open>id, name, input\<close>
  | TextBlock string
  | OtherBlock

record response =
  content :: "content_block list"
  stop_reason :: "string option"

record tool_result =
  tool_use_id :: string
  result_content :: string
  is_error :: bool

datatype message =
    AssistantMessage "content_block list"
  | UserText string
  | UserToolResults "tool_result list"

text \<open>
  What the loop calls and does not define: the model (\<open>client.messages.create\<close>, a
  function of the conversation sent), the tool executor (\<open>executeLyraTool\<close>, \<open>Inl\<close> the
  message of the error it throws; the exchange may answer the same request differently
  at different times, so its first argument is the number of tool calls made before),
  \<open>JSON.stringify\<close>, \<open>JSON.parse\<close>, and the printing of a count. A request to the
  model that fails, and so ends \<open>parseIntent\<close> with the error of the client, is outside
  the model.
\<close>

record agent_env =
  llm :: "message list \<Rightarrow> response"
  executeLyraTool :: "nat \<Rightarrow> string \<Rightarrow> json \<Rightarrow> string + json"
  stringify :: "json \<Rightarrow> string"
  json_parse :: "string \<Rightarrow> json option"
  nat_to_string :: "nat \<Rightarrow> string"

definition MAX_ITERATIONS :: nat where
  "MAX_ITERATIONS = 10"

record loop_state =
  messages :: "message list"
  iterations :: nat
  toolCallCount :: nat
  toolIdsProcessed :: "string set"

fun is_new_tool_use :: "string set \<Rightarrow> content_block \<Rightarrow> bool" where
  "is_new_tool_use seen (ToolUseBlock tid name inp) = (tid \<notin> seen)"
| "is_new_tool_use seen (TextBlock t) = False"
| "is_new_tool_use seen OtherBlock = False"

fun block_text :: "content_block \<Rightarrow> string" where
  "block_text (TextBlock t) = t"
| "block_text (ToolUseBlock tid name inp) = []"
| "block_text OtherBlock = []"

fun block_id :: "content_block \<Rightarrow> string" where
  "block_id (ToolUseBlock tid name inp) = tid"
| "block_id (TextBlock t) = []"
| "block_id OtherBlock = []"

text \<open>
  One tool call, the body of the loop over \<open>toolUseBlocks\<close>: the result, or the summary
  of an array of more than 20 items, as text; an error thrown by the tool becomes a
  result flagged \<open>is_error\<close>.
\<close>

fun run_tool :: "agent_env \<Rightarrow> nat \<Rightarrow> content_block \<Rightarrow> tool_result" where
  "run_tool env k (ToolUseBlock tid name inp) =
     (case executeLyraTool env k name inp of
        Inr result \<Rightarrow>
          \<lparr> tool_use_id = tid,
            result_content =
              (case result of
                 JArr xs \<Rightarrow>
                   if length xs > 20
                   then stringify env (JObj
                          [(''total_count'', JNum (of_nat (length xs))),
                           (''sample'', JArr (take 10 xs)),
                           (''message'', JStr (''Showing first 10 of '' @ nat_to_string env (length xs)
                              @ '' results. Use more specific filters if needed.''))])
                   else stringify env result
               | _ \<Rightarrow> stringify env result),
            is_error = False \<rparr>
      | Inl errorMessage \<Rightarrow>
          \<lparr> tool_use_id = tid,
            result_content = stringify env (JObj [(''error'', JStr errorMessage)]),
            is_error = True \<rparr>)"
| "run_tool env k (TextBlock t) = \<lparr> tool_use_id = [], result_content = [], is_error = False \<rparr>"
| "run_tool env k OtherBlock = \<lparr> tool_use_id = [], result_content = [], is_error = False \<rparr>"

definition corrective :: "agent_env \<Rightarrow> nat \<Rightarrow> string" where
  "corrective env n =
     ''ERROR: You must call lyra_get_index_price AND lyra_find_liquid_options before outputting a TradeSpec. You have only made ''
       @ nat_to_string env n @ '' tool calls. Please call the required tools now.''"

text \<open>
  The loop \<open>while (iterations < MAX_ITERATIONS)\<close> of \<open>parseIntent\<close>, from a state of its
  four variables. It returns what \<open>parseIntent\<close> returns or throws, with the state at
  that moment.
\<close>

function parseIntent_loop :: "agent_env \<Rightarrow> loop_state \<Rightarrow> (agent_error + TradeSpec) \<times> loop_state" where
  "parseIntent_loop env st =
     (if iterations st < MAX_ITERATIONS
      then let st1 = st\<lparr> iterations := iterations st + 1 \<rparr>;
               resp = llm env (messages st1);
               toolUseBlocks = filter (is_new_tool_use (toolIdsProcessed st1)) (content resp);
               textContent = concat (map block_text (content resp))
           in if length toolUseBlocks > 0
              then parseIntent_loop env
                     (st1\<lparr> toolCallCount := toolCallCount st1 + length toolUseBlocks,
                          messages := messages st1 @
                            [AssistantMessage (content resp),
                             UserToolResults
                               (map (\<lambda>(k, b). run_tool env (toolCallCount st1 + k) b)
                                    (enumerate 0 toolUseBlocks))],
                          toolIdsProcessed :=
                            toolIdsProcessed st1 \<union> set (map block_id toolUseBlocks) \<rparr>)
              else if stop_reason resp = Some ''end_turn'' \<and> textContent \<noteq> []
              then if toolCallCount st1 < 2
                   then parseIntent_loop env
                          (st1\<lparr> messages := messages st1 @
                                 [AssistantMessage [TextBlock textContent],
                                  UserText (corrective env (toolCallCount st1))] \<rparr>)
                   else (extractTradeSpec (json_parse env) textContent, st1)
              else (Inl (UnexpectedState (stop_reason resp) (textContent \<noteq> [])), st1)
      else (Inl (IterationsExceeded MAX_ITERATIONS), st))"
  by pat_completeness auto
termination
  by (relation "measure (\<lambda>(env, st). MAX_ITERATIONS - iterations st)") auto

declare parseIntent_loop.simps [simp del]

definition parseIntent :: "agent_env \<Rightarrow> string \<Rightarrow> (agent_error + TradeSpec) \<times> loop_state" where
  "parseIntent env intent =
     parseIntent_loop env
       \<lparr> messages =
           [UserText (''Parse this trading intent and create an optimal trade using real market data:''
              @ [CHR 0x0A, CHR 0x0A, CHR 0x22] @ intent @ [CHR 0x22, CHR 0x0A, CHR 0x0A]
              @ ''Remember: You MUST call lyra_get_index_price and lyra_find_liquid_options BEFORE outputting any TradeSpec.'')],
         iterations = 0, toolCallCount = 0, toolIdsProcessed = {} \<rparr>"

text \<open>The shape that a validated TradeSpec has.\<close>

definition valid_TradeSpec :: "TradeSpec \<Rightarrow> bool" where
  "valid_TradeSpec spec =
     (underlying spec \<noteq> [] \<and> strategy spec \<noteq> [] \<and> expiry spec \<noteq> [] \<and>
      legs spec \<noteq> [] \<and>
      list_all (\<lambda>leg. instrument_name leg \<noteq> [] \<and> 0 < amount leg) (legs spec) \<and>
      0 \<le> max_cost_usd spec \<and> 0 \<le> max_loss_usd spec \<and> explanation spec \<noteq> [])"

section \<open>Notions used to state the properties\<close>

text \<open>
  The JSON value that encodes a TradeSpec, the boundary format between the loop and what
  follows it.
\<close>

definition json_of_Leg :: "Leg \<Rightarrow> json" where
  "json_of_Leg leg =
     JObj [(''instrument_name'', JStr (instrument_name leg)),
           (''side'', JStr (case side leg of buy \<Rightarrow> ''buy'' | sell \<Rightarrow> ''sell'')),
           (''amount'', JNum (amount leg))]"

definition json_of_TradeSpec :: "TradeSpec \<Rightarrow> json" where
  "json_of_TradeSpec spec =
     JObj [(''underlying'', JStr (underlying spec)),
           (''strategy'', JStr (strategy spec)),
           (''expiry'', JStr (expiry spec)),
           (''legs'', JArr (map json_of_Leg (legs spec))),
           (''max_cost_usd'', JNum (max_cost_usd spec)),
           (''max_loss_usd'', JNum (max_loss_usd spec)),
           (''explanation'', JStr (explanation spec))]"

text \<open>
  What the preference order of the extraction speaks of. A text has a fenced block when it
  holds two fences that do not overlap. The content \<open>g\<close> of the first fenced block: the
  opening fence is the first fence of the text; \<open>json\<close> right after it and the white
  space that follows are not part of the content; the closing fence is the first fence
  from there on, and the white space in front of it is not part of the content either.
\<close>

definition has_fence_pair :: "string \<Rightarrow> bool" where
  "has_fence_pair s = (\<exists>a b c. s = a @ ''```'' @ b @ ''```'' @ c)"

definition first_fenced_block :: "string \<Rightarrow> string \<Rightarrow> bool" where
  "first_fenced_block s g =
     (\<exists>pre tag ws1 ws2 post.
        s = pre @ ''```'' @ tag @ ws1 @ g @ ws2 @ ''```'' @ post \<and>
        (\<forall>u v. s = u @ ''```'' @ v \<longrightarrow> length pre \<le> length u) \<and>
        (tag = ''json'' \<or> tag = [] \<and> take 4 (ws1 @ g @ ws2 @ ''```'' @ post) \<noteq> ''json'') \<and>
        list_all is_space ws1 \<and> list_all is_space ws2 \<and>
        (g = [] \<longrightarrow> ws2 = []) \<and>
        (g \<noteq> [] \<longrightarrow> \<not> is_space (hd g) \<and> \<not> is_space (last g)) \<and>
        (\<forall>u v. g @ ws2 @ ''```'' @ post = u @ ''```'' @ v \<longrightarrow> length (g @ ws2) \<le> length u))"

text \<open>
  A text has a brace pair when an opening brace is followed, anywhere later, by a closing
  brace; its brace span \<open>m\<close> then runs from the first opening brace of the text to the
  last closing brace of the text.
\<close>

definition has_brace_pair :: "string \<Rightarrow> bool" where
  "has_brace_pair s = (\<exists>a b c. s = a @ ''{'' @ b @ ''}'' @ c)"

definition brace_span :: "string \<Rightarrow> string \<Rightarrow> bool" where
  "brace_span s m =
     (\<exists>pre post. s = pre @ m @ post \<and> CHR ''{'' \<notin> set pre \<and> CHR ''}'' \<notin> set post \<and>
        m \<noteq> [] \<and> hd m = CHR ''{'' \<and> last m = CHR ''}'')"

text \<open>The number of tool results in a conversation.\<close>

fun tool_results_count :: "message list \<Rightarrow> nat" where
  "tool_results_count [] = 0"
| "tool_results_count (UserToolResults rs # ms) = length rs + tool_results_count ms"
| "tool_results_count (AssistantMessage c # ms) = tool_results_count ms"
| "tool_results_count (UserText t # ms) = tool_results_count ms"

text \<open>
  The sampling domain \<open>[minPrice, maxPrice]\<close> that \<open>calculatePayoff\<close> computes from the
  parsed legs and the reference price, and the P\&L at its 101 sample prices.
\<close>

definition price_domain :: "LegWithPrice list \<Rightarrow> real \<Rightarrow> real \<times> real" where
  "price_domain ls currentPrice =
     (case ls of
        [] \<Rightarrow> (0, 0)
      | l # rest \<Rightarrow>
          (let minStrike = fold min (map strike rest) (strike l);
               maxStrike = fold max (map strike rest) (strike l);
               priceRange = (if maxStrike - minStrike \<noteq> 0 then maxStrike - minStrike
                             else currentPrice * (2 / 10))
           in (max 0 (minStrike - priceRange * (5 / 10)), maxStrike + priceRange * (5 / 10))))"

definition sampled_pnls :: "LegWithPrice list \<Rightarrow> real \<Rightarrow> real list" where
  "sampled_pnls ls currentPrice =
     map (\<lambda>i. calculateTotalPnl ls
                 (sample_price (fst (price_domain ls currentPrice))
                               (snd (price_domain ls currentPrice)) i)) [0..<101]"

text \<open>
  The two conditions on the parsed legs that \<open>calculatePayoff\<close> tests: a bought call with
  no sold call, and a bought put with no sold put.
\<close>

definition uncapped_call :: "LegWithPrice list \<Rightarrow> bool" where
  "uncapped_call ls =
     (\<not> list_ex (\<lambda>l. side l = sell \<and> optionType l = C) ls \<and>
      list_ex (\<lambda>l. side l = buy \<and> optionType l = C) ls)"

definition uncovered_put :: "LegWithPrice list \<Rightarrow> bool" where
  "uncovered_put ls =
     (list_ex (\<lambda>l. side l = buy \<and> optionType l = P) ls \<and>
      \<not> list_ex (\<lambda>l. side l = sell \<and> optionType l = P) ls)"


section \<open>Properties of the SafetyGate\<close>

lemma fold_max_le_iff:
  "(fold max ys (x::real) \<le> b) = (x \<le> b \<and> (\<forall>y \<in> set ys. y \<le> b))"
  by (induction ys arbitrary: x) auto

lemma Math_max_le_iff:
  "(case Math_max xs of None \<Rightarrow> True | Some m \<Rightarrow> m \<le> b) = (\<forall>x \<in> set xs. x \<le> b)"
  by (cases xs) (auto simp: Math_max_def fold_max_le_iff)

lemma contracts_check_iff:
  "passes_max_contracts (runSafetyChecks fmt config spec estimatedCost spreadPercent) =
     (\<forall>leg \<in> set (legs spec). amount leg \<le> maxContractsPerLeg config)"
  using Math_max_le_iff [where xs = "map amount (legs spec)" and b = "maxContractsPerLeg config"]
  by (simp add: runSafetyChecks_def Let_def)

text \<open>
  Claim C1. The verdict \<open>all_passed\<close> of \<open>runSafetyChecks\<close> is true exactly when the
  estimated cost is at most \<open>maxTradeCostUsd\<close>, every leg's amount is at most
  \<open>maxContractsPerLeg\<close>, and the spread check passes or safe mode is off. The spread
  check passes when there is no spread figure or the figure is at most
  \<open>maxSpreadPercent\<close>. So a cost equal to the limit passes and a larger one fails, a
  spread failure does not block with safe mode off, and a cost or contracts failure
  blocks whatever the safe mode.
\<close>

theorem runSafetyChecks_all_passed_iff:
  "all_passed (runSafetyChecks fmt config spec estimatedCost spreadPercent) =
     (estimatedCost \<le> maxTradeCostUsd config \<and>
      (\<forall>leg \<in> set (legs spec). amount leg \<le> maxContractsPerLeg config) \<and>
      ((case spreadPercent of None \<Rightarrow> True | Some s \<Rightarrow> s \<le> maxSpreadPercent config)
        \<or> \<not> safeModeEnabled config))"
proof -
  let ?r = "runSafetyChecks fmt config spec estimatedCost spreadPercent"
  have all: "all_passed ?r =
      (passes_max_cost ?r \<and> passes_max_contracts ?r \<and>
       (passes_spread_check ?r \<or> \<not> safeModeEnabled config))"
    by (simp add: runSafetyChecks_def Let_def)
  have cost: "passes_max_cost ?r = (estimatedCost \<le> maxTradeCostUsd config)"
    by (simp add: runSafetyChecks_def Let_def)
  have spread: "passes_spread_check ?r =
      (case spreadPercent of None \<Rightarrow> True | Some s \<Rightarrow> s \<le> maxSpreadPercent config)"
    by (simp add: runSafetyChecks_def Let_def)
  show ?thesis
    unfolding all cost spread contracts_check_iff ..
qed

theorem runSafetyChecks_all_passed_witness:
  "all_passed (runSafetyChecks \<lparr>num_to_string = (\<lambda>x. ''n''), toFixed = (\<lambda>x d. ''n'')\<rparr>
       \<lparr>maxTradeCostUsd = 200, maxContractsPerLeg = 10, maxSpreadPercent = 5,
        safeModeEnabled = True\<rparr>
       \<lparr>underlying = ''ETH'', strategy = ''Long Call'', expiry = ''20250110'',
        legs = [\<lparr>instrument_name = ''ETH-20250110-3500-C'', side = buy, amount = 10\<rparr>],
        max_cost_usd = 150, max_loss_usd = 150, explanation = ''Test''\<rparr>
       200 (Some 2))
   \<and> \<not> all_passed (runSafetyChecks \<lparr>num_to_string = (\<lambda>x. ''n''), toFixed = (\<lambda>x d. ''n'')\<rparr>
       \<lparr>maxTradeCostUsd = 200, maxContractsPerLeg = 10, maxSpreadPercent = 5,
        safeModeEnabled = False\<rparr>
       \<lparr>underlying = ''ETH'', strategy = ''Long Call'', expiry = ''20250110'',
        legs = [\<lparr>instrument_name = ''ETH-20250110-3500-C'', side = buy, amount = 10\<rparr>],
        max_cost_usd = 150, max_loss_usd = 150, explanation = ''Test''\<rparr>
       (20001 / 100) (Some 2))
   \<and> all_passed (runSafetyChecks \<lparr>num_to_string = (\<lambda>x. ''n''), toFixed = (\<lambda>x d. ''n'')\<rparr>
       \<lparr>maxTradeCostUsd = 200, maxContractsPerLeg = 10, maxSpreadPercent = 5,
        safeModeEnabled = False\<rparr>
       \<lparr>underlying = ''ETH'', strategy = ''Long Call'', expiry = ''20250110'',
        legs = [\<lparr>instrument_name = ''ETH-20250110-3500-C'', side = buy, amount = 10\<rparr>],
        max_cost_usd = 150, max_loss_usd = 150, explanation = ''Test''\<rparr>
       200 (Some 12))"
  by (simp add: runSafetyChecks_all_passed_iff)

text \<open>
  Claim C8. \<open>validateTradeBeforeExecution\<close> allows every preview when safe mode is off.
  With safe mode on it denies, in this order of priority, on a failed cost check (with the
  cost reason), on a failed contracts check (with the contracts reason) and on a
  non-empty error list (with the errors joined by \<open>; \<close>), and allows otherwise.
\<close>

theorem validateTradeBeforeExecution_priority:
  "canExecute (validateTradeBeforeExecution fmt config preview) =
     (\<not> safeModeEnabled config \<or>
      (passes_max_cost (safety_checks preview) \<and>
       passes_max_contracts (safety_checks preview) \<and>
       errors (safety_checks preview) = []))
   \<and> reason (validateTradeBeforeExecution fmt config preview) =
     (if \<not> safeModeEnabled config then None
      else if \<not> passes_max_cost (safety_checks preview)
        then Some (cost_reason fmt config)
      else if \<not> passes_max_contracts (safety_checks preview)
        then Some (contracts_reason fmt config)
      else if errors (safety_checks preview) \<noteq> []
        then Some (join ''; '' (errors (safety_checks preview)))
      else None)"
  by (simp add: validateTradeBeforeExecution_def)

theorem validateTradeBeforeExecution_priority_witness:
  "reason (validateTradeBeforeExecution \<lparr>num_to_string = (\<lambda>x. ''200''), toFixed = (\<lambda>x d. ''n'')\<rparr>
       \<lparr>maxTradeCostUsd = 200, maxContractsPerLeg = 10, maxSpreadPercent = 5,
        safeModeEnabled = True\<rparr>
       \<lparr>tradeSpec = \<lparr>underlying = ''ETH'', strategy = ''Long Call'', expiry = ''20250110'',
          legs = [\<lparr>instrument_name = ''ETH-20250110-3500-C'', side = buy, amount = 1\<rparr>],
          max_cost_usd = 150, max_loss_usd = 150, explanation = ''Test''\<rparr>,
        total_estimated_cost = 100, max_loss = 150, max_gain = Some 500,
        preview_breakevens = [3650],
        safety_checks = \<lparr>passes_max_cost = False, passes_max_contracts = False,
          passes_spread_check = True, spread_percent = Some 2, all_passed = False,
          warnings = [], errors = [''first'', ''second'']\<rparr>\<rparr>)
     = Some ''Trade cost exceeds maximum of $200''
   \<and> reason (validateTradeBeforeExecution \<lparr>num_to_string = (\<lambda>x. ''200''), toFixed = (\<lambda>x d. ''n'')\<rparr>
       \<lparr>maxTradeCostUsd = 200, maxContractsPerLeg = 10, maxSpreadPercent = 5,
        safeModeEnabled = True\<rparr>
       \<lparr>tradeSpec = \<lparr>underlying = ''ETH'', strategy = ''Long Call'', expiry = ''20250110'',
          legs = [\<lparr>instrument_name = ''ETH-20250110-3500-C'', side = buy, amount = 1\<rparr>],
          max_cost_usd = 150, max_loss_usd = 150, explanation = ''Test''\<rparr>,
        total_estimated_cost = 100, max_loss = 150, max_gain = Some 500,
        preview_breakevens = [3650],
        safety_checks = \<lparr>passes_max_cost = True, passes_max_contracts = True,
          passes_spread_check = True, spread_percent = Some 2, all_passed = True,
          warnings = [], errors = [''first'', ''second'']\<rparr>\<rparr>)
     = Some ''first; second''"
  by (simp add: validateTradeBeforeExecution_priority cost_reason_def)

text \<open>
  Claim C10. The error list of \<open>runSafetyChecks\<close> is non-empty exactly when the estimated
  cost exceeds \<open>maxTradeCostUsd\<close> or some leg's amount exceeds \<open>maxContractsPerLeg\<close>,
  that is, exactly when the cost flag or the contracts flag it returns is false: it holds
  the cost message in the first case followed by the contracts message in the second, and
  nothing else. A failed spread check, a missing spread figure and a \<open>max_loss_usd\<close>
  above the cost limit add warnings only, and the error list does not depend on the
  spread or on \<open>max_loss_usd\<close>. So on a preview whose \<open>safety_checks\<close> come from
  \<open>runSafetyChecks\<close>, whatever the configuration at validation time,
  \<open>validateTradeBeforeExecution\<close> never answers with the joined errors: with safe mode
  on it denies with the cost reason when the cost exceeded its limit, else with the
  contracts reason when an amount exceeded its limit, and allows otherwise.
\<close>

theorem runSafetyChecks_errors_iff:
  assumes "safety_checks preview = runSafetyChecks fmt config spec estimatedCost spreadPercent"
  shows "((errors (safety_checks preview) \<noteq> []) =
            (\<not> estimatedCost \<le> maxTradeCostUsd config \<or>
             \<not> (\<forall>leg \<in> set (legs spec). amount leg \<le> maxContractsPerLeg config)))
    \<and> ((errors (safety_checks preview) \<noteq> []) =
            (\<not> passes_max_cost (safety_checks preview) \<or>
             \<not> passes_max_contracts (safety_checks preview)))
    \<and> errors (safety_checks preview) =
        (if estimatedCost \<le> maxTradeCostUsd config then []
         else [cost_error fmt config estimatedCost]) @
        (case Math_max (map amount (legs spec)) of None \<Rightarrow> []
         | Some m \<Rightarrow> if m \<le> maxContractsPerLeg config then []
                     else [contracts_error fmt config m])
    \<and> warnings (safety_checks preview) =
        (case spreadPercent of
           None \<Rightarrow> [''Could not calculate bid-ask spread - no liquidity data'']
         | Some s \<Rightarrow> if s \<le> maxSpreadPercent config then []
                     else [spread_warning fmt config s]) @
        (if max_loss_usd spec > maxTradeCostUsd config
         then [max_loss_warning fmt config (max_loss_usd spec)] else [])
    \<and> errors (safety_checks preview) =
        errors (runSafetyChecks fmt config (spec\<lparr>max_loss_usd := anyLoss\<rparr>) estimatedCost anySpread)
    \<and> validateTradeBeforeExecution fmt' config' preview =
        (if \<not> safeModeEnabled config' then \<lparr> canExecute = True, reason = None \<rparr>
         else if \<not> estimatedCost \<le> maxTradeCostUsd config
           then \<lparr> canExecute = False, reason = Some (cost_reason fmt' config') \<rparr>
         else if \<not> (\<forall>leg \<in> set (legs spec). amount leg \<le> maxContractsPerLeg config)
           then \<lparr> canExecute = False, reason = Some (contracts_reason fmt' config') \<rparr>
         else \<lparr> canExecute = True, reason = None \<rparr>)"
proof -
  let ?r = "runSafetyChecks fmt config spec estimatedCost spreadPercent"
  have pc: "passes_max_cost ?r = (estimatedCost \<le> maxTradeCostUsd config)"
    by (simp add: runSafetyChecks_def Let_def)
  have pk: "passes_max_contracts ?r =
      (\<forall>leg \<in> set (legs spec). amount leg \<le> maxContractsPerLeg config)"
    by (rule contracts_check_iff)
  have e: "(errors ?r \<noteq> []) = (\<not> passes_max_cost ?r \<or> \<not> passes_max_contracts ?r)"
    by (simp add: runSafetyChecks_def Let_def split: option.split)
  have el: "errors ?r =
        (if estimatedCost \<le> maxTradeCostUsd config then []
         else [cost_error fmt config estimatedCost]) @
        (case Math_max (map amount (legs spec)) of None \<Rightarrow> []
         | Some m \<Rightarrow> if m \<le> maxContractsPerLeg config then []
                     else [contracts_error fmt config m])"
    by (simp add: runSafetyChecks_def Let_def split: option.split)
  have wl: "warnings ?r =
        (case spreadPercent of
           None \<Rightarrow> [''Could not calculate bid-ask spread - no liquidity data'']
         | Some s \<Rightarrow> if s \<le> maxSpreadPercent config then []
                     else [spread_warning fmt config s]) @
        (if max_loss_usd spec > maxTradeCostUsd config
         then [max_loss_warning fmt config (max_loss_usd spec)] else [])"
    by (simp add: runSafetyChecks_def Let_def split: option.split)
  have w: "errors ?r =
      errors (runSafetyChecks fmt config (spec\<lparr>max_loss_usd := anyLoss\<rparr>) estimatedCost anySpread)"
    by (simp add: runSafetyChecks_def Let_def)
  have v: "validateTradeBeforeExecution fmt' config' preview =
        (if \<not> safeModeEnabled config' then \<lparr> canExecute = True, reason = None \<rparr>
         else if \<not> passes_max_cost ?r
           then \<lparr> canExecute = False, reason = Some (cost_reason fmt' config') \<rparr>
         else if \<not> passes_max_contracts ?r
           then \<lparr> canExecute = False, reason = Some (contracts_reason fmt' config') \<rparr>
         else \<lparr> canExecute = True, reason = None \<rparr>)"
    using e by (auto simp: validateTradeBeforeExecution_def assms)
  have e': "(errors ?r \<noteq> []) =
            (\<not> estimatedCost \<le> maxTradeCostUsd config \<or>
             \<not> (\<forall>leg \<in> set (legs spec). amount leg \<le> maxContractsPerLeg config))"
    using e unfolding pc pk .
  have v': "validateTradeBeforeExecution fmt' config' preview =
        (if \<not> safeModeEnabled config' then \<lparr> canExecute = True, reason = None \<rparr>
         else if \<not> estimatedCost \<le> maxTradeCostUsd config
           then \<lparr> canExecute = False, reason = Some (cost_reason fmt' config') \<rparr>
         else if \<not> (\<forall>leg \<in> set (legs spec). amount leg \<le> maxContractsPerLeg config)
           then \<lparr> canExecute = False, reason = Some (contracts_reason fmt' config') \<rparr>
         else \<lparr> canExecute = True, reason = None \<rparr>)"
    using v unfolding pc pk .
  show ?thesis
    unfolding assms by (intro conjI e' e el wl w v')
qed

theorem runSafetyChecks_errors_witness:
  "validateTradeBeforeExecution \<lparr>num_to_string = (\<lambda>x. ''200''), toFixed = (\<lambda>x d. ''n'')\<rparr>
       \<lparr>maxTradeCostUsd = 200, maxContractsPerLeg = 10, maxSpreadPercent = 5,
        safeModeEnabled = True\<rparr>
       \<lparr>tradeSpec = \<lparr>underlying = ''ETH'', strategy = ''Long Call'', expiry = ''20250110'',
          legs = [\<lparr>instrument_name = ''ETH-20250110-3500-C'', side = buy, amount = 1\<rparr>],
          max_cost_usd = 150, max_loss_usd = 500, explanation = ''Test''\<rparr>,
        total_estimated_cost = 100, max_loss = 150, max_gain = Some 500,
        preview_breakevens = [3650],
        safety_checks = runSafetyChecks \<lparr>num_to_string = (\<lambda>x. ''n''), toFixed = (\<lambda>x d. ''n'')\<rparr>
          \<lparr>maxTradeCostUsd = 200, maxContractsPerLeg = 10, maxSpreadPercent = 5,
           safeModeEnabled = True\<rparr>
          \<lparr>underlying = ''ETH'', strategy = ''Long Call'', expiry = ''20250110'',
           legs = [\<lparr>instrument_name = ''ETH-20250110-3500-C'', side = buy, amount = 1\<rparr>],
           max_cost_usd = 150, max_loss_usd = 500, explanation = ''Test''\<rparr>
          100 (Some 12)\<rparr>
     = \<lparr> canExecute = True, reason = None \<rparr>
   \<and> errors (runSafetyChecks \<lparr>num_to_string = (\<lambda>x. ''n''), toFixed = (\<lambda>x d. ''n'')\<rparr>
          \<lparr>maxTradeCostUsd = 200, maxContractsPerLeg = 10, maxSpreadPercent = 5,
           safeModeEnabled = True\<rparr>
          \<lparr>underlying = ''ETH'', strategy = ''Long Call'', expiry = ''20250110'',
           legs = [\<lparr>instrument_name = ''ETH-20250110-3500-C'', side = buy, amount = 1\<rparr>],
           max_cost_usd = 150, max_loss_usd = 500, explanation = ''Test''\<rparr>
          100 (Some 12)) = []
   \<and> errors (runSafetyChecks \<lparr>num_to_string = (\<lambda>x. ''n''), toFixed = (\<lambda>x d. ''n'')\<rparr>
          \<lparr>maxTradeCostUsd = 200, maxContractsPerLeg = 10, maxSpreadPercent = 5,
           safeModeEnabled = True\<rparr>
          \<lparr>underlying = ''ETH'', strategy = ''Long Call'', expiry = ''20250110'',
           legs = [\<lparr>instrument_name = ''ETH-20250110-3500-C'', side = buy, amount = 11\<rparr>],
           max_cost_usd = 150, max_loss_usd = 500, explanation = ''Test''\<rparr>
          100 (Some 12)) \<noteq> []"
proof -
  let ?fmt = "\<lparr>num_to_string = (\<lambda>x::real. ''n''), toFixed = (\<lambda>(x::real) (d::nat). ''n'')\<rparr>"
  let ?cfg = "\<lparr>maxTradeCostUsd = 200, maxContractsPerLeg = 10, maxSpreadPercent = 5,
                safeModeEnabled = True\<rparr>"
  let ?spec = "\<lparr>underlying = ''ETH'', strategy = ''Long Call'', expiry = ''20250110'',
           legs = [\<lparr>instrument_name = ''ETH-20250110-3500-C'', side = buy, amount = 1\<rparr>],
           max_cost_usd = 150, max_loss_usd = 500, explanation = ''Test''\<rparr>"
  let ?big = "\<lparr>underlying = ''ETH'', strategy = ''Long Call'', expiry = ''20250110'',
           legs = [\<lparr>instrument_name = ''ETH-20250110-3500-C'', side = buy, amount = 11\<rparr>],
           max_cost_usd = 150, max_loss_usd = 500, explanation = ''Test''\<rparr>"
  let ?preview = "\<lparr>tradeSpec = ?spec,
        total_estimated_cost = 100, max_loss = 150, max_gain = Some 500,
        preview_breakevens = [3650],
        safety_checks = runSafetyChecks ?fmt ?cfg ?spec 100 (Some 12)\<rparr>"
  let ?preview2 = "\<lparr>tradeSpec = ?big,
        total_estimated_cost = 100, max_loss = 150, max_gain = Some 500,
        preview_breakevens = [3650],
        safety_checks = runSafetyChecks ?fmt ?cfg ?big 100 (Some 12)\<rparr>"
  have h: "safety_checks ?preview = runSafetyChecks ?fmt ?cfg ?spec 100 (Some 12)"
    by simp
  have h2: "safety_checks ?preview2 = runSafetyChecks ?fmt ?cfg ?big 100 (Some 12)"
    by simp
  have a: "validateTradeBeforeExecution
             \<lparr>num_to_string = (\<lambda>x. ''200''), toFixed = (\<lambda>x d. ''n'')\<rparr> ?cfg ?preview
           = \<lparr> canExecute = True, reason = None \<rparr>"
    using runSafetyChecks_errors_iff [OF h,
        of _ _ "\<lparr>num_to_string = (\<lambda>x. ''200''), toFixed = (\<lambda>x d. ''n'')\<rparr>" ?cfg]
    by simp
  have b: "errors (runSafetyChecks ?fmt ?cfg ?spec 100 (Some 12)) = []"
    using runSafetyChecks_errors_iff [OF h, THEN conjunct1] by simp
  have c: "errors (runSafetyChecks ?fmt ?cfg ?big 100 (Some 12)) \<noteq> []"
    using runSafetyChecks_errors_iff [OF h2, THEN conjunct1] by simp
  from a b c show ?thesis
    by simp
qed

section \<open>Properties of the entry cost\<close>













section \<open>Properties of the breakeven search\<close>



lemma cross_iff:
  fixes a b :: real
  shows "((a < 0 \<and> 0 \<le> b) \<or> (0 \<le> a \<and> b < 0)) = ((a < 0) \<noteq> (b < 0))"
  by auto



lemma scan_stop: "\<not> current \<le> maxPrice \<Longrightarrow> scan ls step maxPrice current prevPnl found = Some found"
  by (subst scan.simps) simp







lemma scan_returns: "0 < step \<Longrightarrow> \<exists>bs. scan ls step maxPrice current prevPnl found = Some bs"
proof (induction ls step maxPrice current prevPnl found rule: scan.induct)
  case (1 ls step maxPrice current prevPnl found)
  show ?case
  proof (cases "current \<le> maxPrice")
    case False
    then show ?thesis by (simp add: scan_stop)
  next
    case True
    have ns: "\<not> step \<le> 0"
      using "1.prems" by simp
    have "\<exists>bs. scan ls step maxPrice (current + step) (calculateTotalPnl ls current)
       (if (prevPnl < 0 \<and> calculateTotalPnl ls current \<ge> 0)
            \<or> (prevPnl \<ge> 0 \<and> calculateTotalPnl ls current < 0)
        then let (low, high) = bisect ls prevPnl (current - step) current
             in found @ [round2 ((low + high) / 2)]
        else found) = Some bs"
      by (rule "1.IH" [OF True ns refl refl "1.prems"])
    then show ?thesis
      using True ns by (subst scan.simps) (simp only: Let_def if_True if_False)
  qed
qed

lemma findBreakevens_returns:
  "minPrice < maxPrice \<Longrightarrow> \<exists>bs. findBreakevens ls minPrice maxPrice = Some bs"
  by (simp add: findBreakevens_def Let_def scan_returns)

section \<open>Properties of the payoff analysis\<close>

lemma fold_min_le: "fold min xs (x::real) \<le> x"
proof (induction xs arbitrary: x)
  case Nil
  show ?case by simp
next
  case (Cons a xs)
  have "fold min xs (min a x) \<le> min a x"
    by (rule Cons.IH)
  then show ?case by simp
qed

lemma fold_max_ge: "(x::real) \<le> fold max xs x"
proof (induction xs arbitrary: x)
  case Nil
  show ?case by simp
next
  case (Cons a xs)
  have "max a x \<le> fold max xs (max a x)"
    by (rule Cons.IH)
  then show ?case by simp
qed

lemma price_domain_lt:
  assumes "0 \<le> strike l" and "0 < currentPrice"
  shows "fst (price_domain (l # rest) currentPrice) < snd (price_domain (l # rest) currentPrice)"
proof -
  let ?m = "fold min (map strike rest) (strike l)"
  let ?M = "fold max (map strike rest) (strike l)"
  let ?r = "if ?M - ?m \<noteq> 0 then ?M - ?m else currentPrice * (2 / 10)"
  have m: "?m \<le> strike l" by (rule fold_min_le)
  have M: "strike l \<le> ?M" by (rule fold_max_ge)
  have r: "0 < ?r" using m M assms(2) by auto
  have "max 0 (?m - ?r * (5 / 10)) < ?M + ?r * (5 / 10)"
    using m M r assms(1) by (simp add: max_def)
  then show ?thesis
    by (simp add: price_domain_def Let_def)
qed

lemma parseLeg_strike: "parseLeg leg p = Some l \<Longrightarrow> 0 \<le> strike l"
  by (auto simp: parseLeg_def parseInt_def split: option.splits prod.splits)

lemma parse_legs_strike: "l \<in> set (parse_legs spec premiums) \<Longrightarrow> 0 \<le> strike l"
  by (auto simp: parse_legs_def List.map_filter_def dest: parseLeg_strike)


lemma fold_max_samples:
  "fold max (map snd (map (\<lambda>i. let pr = sample_price a b i in (pr, g pr)) [0..<101]))
       (g (sample_price a b 0))
   = Max (set (map (\<lambda>i. g (sample_price a b i)) [0..<101]))"
proof -
  let ?xs = "map (\<lambda>i. g (sample_price a b i)) [0..<101]"
  have m: "map snd (map (\<lambda>i. let pr = sample_price a b i in (pr, g pr)) [0..<101]) = ?xs"
    by (simp add: Let_def comp_def del: upt_rec_numeral)
  have "g (sample_price a b 0) \<in> set ?xs"
    by (simp del: upt_rec_numeral)
  then have "set (g (sample_price a b 0) # ?xs) = set ?xs"
    by (simp only: list.set insert_absorb)
  then have "Max (set ?xs) = fold max ?xs (g (sample_price a b 0))"
    using Max.set_eq_fold [of "g (sample_price a b 0)" ?xs] by simp
  then show ?thesis
    unfolding m by simp
qed

lemma calculatePayoff_maxGain:
  assumes p: "parse_legs spec premiums = l # rest"
    and f: "findBreakevens (l # rest) (fst (price_domain (l # rest) currentPrice))
                             (snd (price_domain (l # rest) currentPrice)) = Some bs"
  shows "map_option maxGain (calculatePayoff spec premiums currentPrice) =
     Some (map_option round2
       (if uncovered_put (l # rest)
        then Some (max (or_zero (if uncapped_call (l # rest) then None
                                 else Some (Max (set (sampled_pnls (l # rest) currentPrice)))))
                       (calculateTotalPnl (l # rest) 0))
        else if uncapped_call (l # rest) then None
             else Some (Max (set (sampled_pnls (l # rest) currentPrice)))))"
proof -
  obtain a b where d: "price_domain (l # rest) currentPrice = (a, b)"
    by (cases "price_domain (l # rest) currentPrice")
  have d': "(max 0 (fold min (map strike rest) (strike l) -
                (if fold max (map strike rest) (strike l) - fold min (map strike rest) (strike l) \<noteq> 0
                 then fold max (map strike rest) (strike l) - fold min (map strike rest) (strike l)
                 else currentPrice * (2 / 10)) * (5 / 10)),
             fold max (map strike rest) (strike l) +
                (if fold max (map strike rest) (strike l) - fold min (map strike rest) (strike l) \<noteq> 0
                 then fold max (map strike rest) (strike l) - fold min (map strike rest) (strike l)
                 else currentPrice * (2 / 10)) * (5 / 10)) = (a, b)"
    using d by (simp only: price_domain_def list.case Let_def)
  then have a: "max 0 (fold min (map strike rest) (strike l) -
                (if fold max (map strike rest) (strike l) - fold min (map strike rest) (strike l) \<noteq> 0
                 then fold max (map strike rest) (strike l) - fold min (map strike rest) (strike l)
                 else currentPrice * (2 / 10)) * (5 / 10)) = a"
    and b: "fold max (map strike rest) (strike l) +
                (if fold max (map strike rest) (strike l) - fold min (map strike rest) (strike l) \<noteq> 0
                 then fold max (map strike rest) (strike l) - fold min (map strike rest) (strike l)
                 else currentPrice * (2 / 10)) * (5 / 10) = b"
    by (simp_all only: prod.inject)
  have fb: "findBreakevens (l # rest) a b = Some bs"
    using f by (simp only: d fst_conv snd_conv)
  have sp: "sampled_pnls (l # rest) currentPrice
      = map (\<lambda>i. calculateTotalPnl (l # rest) (sample_price a b i)) [0..<101]"
    by (simp only: sampled_pnls_def d fst_conv snd_conv)
  show ?thesis
    unfolding calculatePayoff_def p list.case Let_def a b fb option.case sp
      fold_max_samples [where g = "calculateTotalPnl (l # rest)", unfolded Let_def]
      uncapped_call_def uncovered_put_def
    by (simp split del: if_split del: upt_rec_numeral cong: if_cong)
qed


lemma calculatePayoff_returns:
  assumes p: "parse_legs spec premiums = l # rest" and c: "0 < currentPrice"
  shows "\<exists>bs. findBreakevens (l # rest) (fst (price_domain (l # rest) currentPrice))
                             (snd (price_domain (l # rest) currentPrice)) = Some bs"
proof -
  have "l \<in> set (parse_legs spec premiums)"
    by (simp add: p)
  then have "0 \<le> strike l"
    by (rule parse_legs_strike)
  then have "fst (price_domain (l # rest) currentPrice) < snd (price_domain (l # rest) currentPrice)"
    using c by (rule price_domain_lt)
  then show ?thesis
    by (rule findBreakevens_returns)
qed

lemma list_ex_nonempty: "list_ex Q xs \<Longrightarrow> \<exists>y ys. xs = y # ys"
  by (cases xs) simp_all

text \<open>
  Claim C4, amended. Let the reference price be positive. When the parsed legs contain a
  bought call and no sold call, and not also a bought put without a sold put,
  \<open>calculatePayoff\<close> returns and reports \<open>maxGain\<close> as null (unbounded). When they
  contain a bought put and no sold put, and not also a bought call without a sold call,
  it returns and reports as \<open>maxGain\<close> the larger of the maximum sampled P\&L and the
  total P\&L at price 0, rounded to two decimals. Nothing is said here about legs that
  meet both conditions.
\<close>

theorem calculatePayoff_maxGain_amended:
  assumes "0 < currentPrice"
  shows "(uncapped_call (parse_legs spec premiums) \<and> \<not> uncovered_put (parse_legs spec premiums)
           \<longrightarrow> map_option maxGain (calculatePayoff spec premiums currentPrice) = Some None)
       \<and> (uncovered_put (parse_legs spec premiums) \<and> \<not> uncapped_call (parse_legs spec premiums)
           \<longrightarrow> map_option maxGain (calculatePayoff spec premiums currentPrice) =
                 Some (Some (round2 (max
                   (Max (set (sampled_pnls (parse_legs spec premiums) currentPrice)))
                   (calculateTotalPnl (parse_legs spec premiums) 0)))))"
proof (intro conjI impI)
  assume h: "uncapped_call (parse_legs spec premiums) \<and> \<not> uncovered_put (parse_legs spec premiums)"
  then obtain l rest where p: "parse_legs spec premiums = l # rest"
    unfolding uncapped_call_def using list_ex_nonempty by blast
  obtain bs where "findBreakevens (l # rest) (fst (price_domain (l # rest) currentPrice))
                             (snd (price_domain (l # rest) currentPrice)) = Some bs"
    using calculatePayoff_returns [OF p assms] by blast
  from calculatePayoff_maxGain [OF p this] h
  show "map_option maxGain (calculatePayoff spec premiums currentPrice) = Some None"
    by (simp add: p)
next
  assume h: "uncovered_put (parse_legs spec premiums) \<and> \<not> uncapped_call (parse_legs spec premiums)"
  then obtain l rest where p: "parse_legs spec premiums = l # rest"
    unfolding uncovered_put_def using list_ex_nonempty by blast
  obtain bs where "findBreakevens (l # rest) (fst (price_domain (l # rest) currentPrice))
                             (snd (price_domain (l # rest) currentPrice)) = Some bs"
    using calculatePayoff_returns [OF p assms] by blast
  from calculatePayoff_maxGain [OF p this] h
  show "map_option maxGain (calculatePayoff spec premiums currentPrice) =
                 Some (Some (round2 (max
                   (Max (set (sampled_pnls (parse_legs spec premiums) currentPrice)))
                   (calculateTotalPnl (parse_legs spec premiums) 0))))"
    by (simp add: p or_zero_def)
qed

lemma total_single: "calculateTotalPnl [l] S = calculateLegPnl l S"
  by (simp add: calculateTotalPnl_def)



lemma price_domain_single:
  "currentPrice \<noteq> 0 \<Longrightarrow>
   price_domain [l] currentPrice = (max 0 (strike l - currentPrice / 10), strike l + currentPrice / 10)"
  by (simp add: price_domain_def Let_def)


lemma match_3500C: "match_instrument ''ETH-20250110-3500-C'' = Some (''3500'', CHR ''C'')"
  by (simp add: match_instrument_def is_upper_def is_digit_def)




lemma parse_legs_single:
  "match_instrument name = Some (ds, t) \<Longrightarrow>
   parse_legs \<lparr>underlying = u, strategy = st, expiry = e,
        legs = [\<lparr>instrument_name = name, side = sd, amount = a\<rparr>],
        max_cost_usd = mc, max_loss_usd = ml, explanation = ex\<rparr> premiums
   = [\<lparr>instrument_name = name, side = sd, amount = a, strike = parseInt ds,
       optionType = (if t = CHR ''C'' then C else P), premium = premium_of premiums name\<rparr>]"
  by (simp add: parse_legs_def List.map_filter_simps parseLeg_def)

lemma match_3300P: "match_instrument ''ETH-20250110-3300-P'' = Some (''3300'', CHR ''P'')"
  by (simp add: match_instrument_def is_upper_def is_digit_def)

lemma match_3500P: "match_instrument ''ETH-20250110-3500-P'' = Some (''3500'', CHR ''P'')"
  by (simp add: match_instrument_def is_upper_def is_digit_def)


lemma Max_sampled_le:
  assumes "\<And>S. fst (price_domain ls currentPrice) \<le> S \<Longrightarrow> calculateTotalPnl ls S \<le> b"
    and "fst (price_domain ls currentPrice) \<le> snd (price_domain ls currentPrice)"
  shows "Max (set (sampled_pnls ls currentPrice)) \<le> b"
proof -
  have ne: "set (sampled_pnls ls currentPrice) \<noteq> {}"
    by (simp add: sampled_pnls_def del: upt_rec_numeral)
  have "x \<le> b" if "x \<in> set (sampled_pnls ls currentPrice)" for x
  proof -
    from that obtain i where
      x: "x = calculateTotalPnl ls (sample_price (fst (price_domain ls currentPrice))
                                      (snd (price_domain ls currentPrice)) i)"
      by (auto simp: sampled_pnls_def simp del: upt_rec_numeral)
    have "fst (price_domain ls currentPrice)
        \<le> sample_price (fst (price_domain ls currentPrice)) (snd (price_domain ls currentPrice)) i"
      using assms(2) by (simp add: sample_price_def)
    then show ?thesis
      unfolding x by (rule assms(1))
  qed
  then show ?thesis
    using ne by (simp add: Max_le_iff)
qed

text \<open>
  Claim C4 as stated fails twice. For a long straddle (a bought call and a bought put,
  nothing sold) the reported \<open>maxGain\<close> is not null: the put branch replaces the null by
  \<open>max(0, P&L at 0)\<close>, here 3300. And the reported figure is rounded to two decimals: for
  a long put on 0.15 contracts (3/20) at a premium of 100.10 (1001/10) the larger of the
  sampled maximum and the P\&L at 0 is 479.985 (95997/200), and 479.99 is reported.
\<close>

theorem calculatePayoff_maxGain_counterexample:
  "map_option maxGain
     (calculatePayoff
        \<lparr>underlying = ''ETH'', strategy = ''Straddle'', expiry = ''20250110'',
         legs = [\<lparr>instrument_name = ''ETH-20250110-3500-C'', side = buy, amount = 1\<rparr>,
                 \<lparr>instrument_name = ''ETH-20250110-3500-P'', side = buy, amount = 1\<rparr>],
         max_cost_usd = 200, max_loss_usd = 200, explanation = ''Test''\<rparr>
        [''ETH-20250110-3500-C'' \<mapsto> 100, ''ETH-20250110-3500-P'' \<mapsto> 100] 3400)
     = Some (Some 3300)
   \<and> map_option maxGain
     (calculatePayoff
        \<lparr>underlying = ''ETH'', strategy = ''Long Put'', expiry = ''20250110'',
         legs = [\<lparr>instrument_name = ''ETH-20250110-3300-P'', side = buy, amount = 3 / 20\<rparr>],
         max_cost_usd = 20, max_loss_usd = 20, explanation = ''Test''\<rparr>
        [''ETH-20250110-3300-P'' \<mapsto> 1001 / 10] 3100)
     = Some (Some (47999 / 100))
   \<and> max (Max (set (sampled_pnls
              [\<lparr>instrument_name = ''ETH-20250110-3300-P'', side = buy, amount = 3 / 20,
                strike = 3300, optionType = P, premium = 1001 / 10\<rparr>] 3100)))
          (calculateTotalPnl
              [\<lparr>instrument_name = ''ETH-20250110-3300-P'', side = buy, amount = 3 / 20,
                strike = 3300, optionType = P, premium = 1001 / 10\<rparr>] 0)
     = 95997 / 200"
proof -
  let ?c = "\<lparr>instrument_name = ''ETH-20250110-3500-C'', side = buy, amount = 1,
       strike = 3500, optionType = C, premium = 100\<rparr>"
  let ?p = "\<lparr>instrument_name = ''ETH-20250110-3500-P'', side = buy, amount = 1,
       strike = 3500, optionType = P, premium = 100\<rparr>"
  let ?q = "\<lparr>instrument_name = ''ETH-20250110-3300-P'', side = buy, amount = 3 / 20,
       strike = 3300, optionType = P, premium = 1001 / 10\<rparr>"
  let ?straddle = "\<lparr>underlying = ''ETH'', strategy = ''Straddle'', expiry = ''20250110'',
         legs = [\<lparr>instrument_name = ''ETH-20250110-3500-C'', side = buy, amount = 1\<rparr>,
                 \<lparr>instrument_name = ''ETH-20250110-3500-P'', side = buy, amount = 1\<rparr>],
         max_cost_usd = 200, max_loss_usd = 200, explanation = ''Test''\<rparr>"
  let ?prem = "[''ETH-20250110-3500-C'' \<mapsto> 100, ''ETH-20250110-3500-P'' \<mapsto> (100::real)]"
  let ?put = "\<lparr>underlying = ''ETH'', strategy = ''Long Put'', expiry = ''20250110'',
         legs = [\<lparr>instrument_name = ''ETH-20250110-3300-P'', side = buy, amount = 3 / 20\<rparr>],
         max_cost_usd = 20, max_loss_usd = 20, explanation = ''Test''\<rparr>"
  let ?pprem = "[''ETH-20250110-3300-P'' \<mapsto> (1001 / 10 :: real)]"
  have ps: "parse_legs ?straddle ?prem = [?c, ?p]"
    by (simp add: parse_legs_def List.map_filter_simps parseLeg_def match_3500C match_3500P
        parseInt_def premium_of_def)
  obtain bs where fs: "findBreakevens [?c, ?p] (fst (price_domain [?c, ?p] 3400))
                             (snd (price_domain [?c, ?p] 3400)) = Some bs"
    using calculatePayoff_returns [OF ps, of 3400] by auto
  have z: "calculateTotalPnl [?c, ?p] 0 = 3300"
    by (simp add: calculateTotalPnl_def calculateLegPnl_def)
  have one: "map_option maxGain (calculatePayoff ?straddle ?prem 3400) = Some (Some 3300)"
    using calculatePayoff_maxGain [OF ps fs]
    by (simp add: uncapped_call_def uncovered_put_def or_zero_def z round2_def Math_round_def)
  have pq: "parse_legs ?put ?pprem = [?q]"
    by (simp add: parse_legs_single [OF match_3300P] parseInt_def premium_of_def)
  obtain bq where fq: "findBreakevens [?q] (fst (price_domain [?q] 3100))
                             (snd (price_domain [?q] 3100)) = Some bq"
    using calculatePayoff_returns [OF pq, of 3100] by auto
  have zq: "calculateTotalPnl [?q] 0 = 95997 / 200"
    by (simp add: calculateTotalPnl_def calculateLegPnl_def)
  have dq: "price_domain [?q] 3100 = (2990, 3610)"
    by (simp add: price_domain_single)
  have "Max (set (sampled_pnls [?q] 3100)) \<le> 95997 / 200"
  proof (rule Max_sampled_le)
    fix S :: real
    assume "fst (price_domain [?q] 3100) \<le> S"
    then have "2990 \<le> S" unfolding dq by simp
    then show "calculateTotalPnl [?q] S \<le> 95997 / 200"
      by (simp add: total_single calculateLegPnl_def max_def)
  next
    show "fst (price_domain [?q] 3100) \<le> snd (price_domain [?q] 3100)"
      unfolding dq by simp
  qed
  then have mx: "max (Max (set (sampled_pnls [?q] 3100))) (calculateTotalPnl [?q] 0) = 95997 / 200"
    by (simp add: zq max_def)
  have two: "map_option maxGain (calculatePayoff ?put ?pprem 3100)
      = Some (Some (round2 (95997 / 200)))"
    using calculatePayoff_maxGain [OF pq fq] mx
    by (simp add: uncapped_call_def uncovered_put_def or_zero_def)
  have r: "round2 (95997 / 200) = 47999 / 100"
    by (simp add: round2_def Math_round_def)
  show ?thesis
    using one two mx unfolding r by (intro conjI)
qed

theorem calculatePayoff_maxGain_witness:
  "map_option maxGain
     (calculatePayoff
        \<lparr>underlying = ''ETH'', strategy = ''Long Call'', expiry = ''20250110'',
         legs = [\<lparr>instrument_name = ''ETH-20250110-3500-C'', side = buy, amount = 1\<rparr>],
         max_cost_usd = 150, max_loss_usd = 150, explanation = ''Test''\<rparr>
        [''ETH-20250110-3500-C'' \<mapsto> 150] 3400) = Some None
   \<and> map_option maxGain
     (calculatePayoff
        \<lparr>underlying = ''ETH'', strategy = ''Long Put'', expiry = ''20250110'',
         legs = [\<lparr>instrument_name = ''ETH-20250110-3300-P'', side = buy, amount = 1\<rparr>],
         max_cost_usd = 100, max_loss_usd = 100, explanation = ''Test''\<rparr>
        [''ETH-20250110-3300-P'' \<mapsto> 100] 3100)
     = Some (Some (round2 (max
         (Max (set (sampled_pnls
            [\<lparr>instrument_name = ''ETH-20250110-3300-P'', side = buy, amount = 1,
              strike = 3300, optionType = P, premium = 100\<rparr>] 3100)))
         (calculateTotalPnl
            [\<lparr>instrument_name = ''ETH-20250110-3300-P'', side = buy, amount = 1,
              strike = 3300, optionType = P, premium = 100\<rparr>] 0))))"
proof -
  let ?cs = "\<lparr>underlying = ''ETH'', strategy = ''Long Call'', expiry = ''20250110'',
         legs = [\<lparr>instrument_name = ''ETH-20250110-3500-C'', side = buy, amount = 1\<rparr>],
         max_cost_usd = 150, max_loss_usd = 150, explanation = ''Test''\<rparr>"
  let ?cp = "[''ETH-20250110-3500-C'' \<mapsto> (150::real)]"
  let ?c = "\<lparr>instrument_name = ''ETH-20250110-3500-C'', side = buy, amount = 1,
       strike = 3500, optionType = C, premium = 150\<rparr>"
  let ?ps = "\<lparr>underlying = ''ETH'', strategy = ''Long Put'', expiry = ''20250110'',
         legs = [\<lparr>instrument_name = ''ETH-20250110-3300-P'', side = buy, amount = 1\<rparr>],
         max_cost_usd = 100, max_loss_usd = 100, explanation = ''Test''\<rparr>"
  let ?pp = "[''ETH-20250110-3300-P'' \<mapsto> (100::real)]"
  let ?p = "\<lparr>instrument_name = ''ETH-20250110-3300-P'', side = buy, amount = 1,
       strike = 3300, optionType = P, premium = 100\<rparr>"
  have pc: "parse_legs ?cs ?cp = [?c]"
    by (simp add: parse_legs_single [OF match_3500C] parseInt_def premium_of_def)
  have pp: "parse_legs ?ps ?pp = [?p]"
    by (simp add: parse_legs_single [OF match_3300P] parseInt_def premium_of_def)
  have hc: "uncapped_call (parse_legs ?cs ?cp) \<and> \<not> uncovered_put (parse_legs ?cs ?cp)"
    unfolding pc by (simp add: uncapped_call_def uncovered_put_def)
  have hp: "uncovered_put (parse_legs ?ps ?pp) \<and> \<not> uncapped_call (parse_legs ?ps ?pp)"
    unfolding pp by (simp add: uncapped_call_def uncovered_put_def)
  have pos: "(0::real) < 3400" "(0::real) < 3100"
    by simp_all
  have a: "map_option maxGain (calculatePayoff ?cs ?cp 3400) = Some None"
    using calculatePayoff_maxGain_amended [OF pos(1), of ?cs ?cp] hc by blast
  have b: "map_option maxGain (calculatePayoff ?ps ?pp 3100)
     = Some (Some (round2 (max (Max (set (sampled_pnls (parse_legs ?ps ?pp) 3100)))
         (calculateTotalPnl (parse_legs ?ps ?pp) 0))))"
    using calculatePayoff_maxGain_amended [OF pos(2), of ?ps ?pp] hp by blast
  show ?thesis
    using a b unfolding pp by (intro conjI)
qed

section \<open>Properties of the liquidity query\<close>

lemma set_map_filter: "set (List.map_filter f xs) = {y. \<exists>x \<in> set xs. f x = Some y}"
  by (induction xs) (auto simp: List.map_filter_simps split: option.splits)

lemma price_instrument_sound:
  assumes "price_instrument parseFloat maxSpread tickers i = Some r"
  shows "\<exists>t pr b a. tickers (lyra_instrument_name i) = Some t \<and>
           lyra_instrument_name r = lyra_instrument_name i \<and>
           pricing r = Some pr \<and>
           live_price parseFloat (best_bid_price t) = Some b \<and> bid pr = Some b \<and>
           live_price parseFloat (best_ask_price t) = Some a \<and> ask pr = Some a \<and>
           pricing_spread_percent pr =
             (if 0 < b \<and> 0 < (b + a) / 2 then Some ((a - b) / ((b + a) / 2) * 100) else None) \<and>
           (case pricing_spread_percent pr of None \<Rightarrow> True | Some sp \<Rightarrow> sp \<le> maxSpread)"
proof -
  from assms obtain t where t: "tickers (lyra_instrument_name i) = Some t"
    by (auto simp: price_instrument_def split: option.splits)
  from assms t obtain b where b: "live_price parseFloat (best_bid_price t) = Some b"
    by (cases "live_price parseFloat (best_bid_price t)") (auto simp: price_instrument_def Let_def)
  from assms t obtain a where a: "live_price parseFloat (best_ask_price t) = Some a"
    by (cases "live_price parseFloat (best_ask_price t)") (auto simp: price_instrument_def Let_def)
  show ?thesis
    using assms t a b
    by (auto simp: price_instrument_def Let_def split: if_splits)
qed

lemma price_instrument_complete:
  assumes "tickers (lyra_instrument_name i) = Some t"
    and "live_price parseFloat (best_bid_price t) = Some b"
    and "live_price parseFloat (best_ask_price t) = Some a"
    and "0 < b \<and> 0 < (b + a) / 2 \<longrightarrow> (a - b) / ((b + a) / 2) * 100 \<le> maxSpread"
  shows "\<exists>r. price_instrument parseFloat maxSpread tickers i = Some r \<and>
             lyra_instrument_name r = lyra_instrument_name i"
  using assms by (auto simp: price_instrument_def Let_def)


text \<open>
  Claim C6 as stated fails. In the theorems on concrete data \<open>parseFloat\<close> is \<open>parseInt\<close>,
  with which it agrees on strings of digits. First, a caller-supplied maximum of 0 is
  replaced by the default 10 (\<open>params.max_spread_percent || 10\<close>), so a candidate with a
  spread of 4 percent is returned although 4 exceeds the maximum supplied. Second, for a
  candidate whose bid parses to a number that is not positive (here the string \<open>00\<close>) no
  spread is computed: the spread is null, the candidate counts as liquid and is returned,
  while \<open>(ask - bid) / mid * 100\<close> would be 200.
\<close>

theorem executeFindLiquidOptions_counterexample:
  "map lyra_instrument_name
     (executeFindLiquidOptions parseInt
        \<lparr>params_underlying = ''ETH'', params_option_type = C, min_days_to_expiry = 0,
         max_days_to_expiry = 30, strike_range_percent = None, max_spread_percent = Some 0\<rparr>
        0 3500
        [\<lparr>lyra_instrument_name = ''ETH-20250110-3500-C'', instrument_type = ''option'',
          underlying_currency = ''ETH'', is_active = True, tick_size = ''1'',
          minimum_amount = ''1'',
          option_details = Some \<lparr>details_expiry = 86400, details_strike = ''3500'',
            option_type = C\<rparr>\<rparr>]
        [''ETH-20250110-3500-C'' \<mapsto> \<lparr>ticker_instrument_name = ''ETH-20250110-3500-C'', best_bid_price = Some ''98'',
          best_ask_price = Some ''102'', best_bid_amount = ''1'', best_ask_amount = ''1'',
          mark_price = ''100'', ticker_index_price = ''3500'', option_pricing = None\<rparr>]) = [''ETH-20250110-3500-C'']
   \<and> map spread_key
     (executeFindLiquidOptions parseInt
        \<lparr>params_underlying = ''ETH'', params_option_type = C, min_days_to_expiry = 0,
         max_days_to_expiry = 30, strike_range_percent = None, max_spread_percent = Some 0\<rparr>
        0 3500
        [\<lparr>lyra_instrument_name = ''ETH-20250110-3500-C'', instrument_type = ''option'',
          underlying_currency = ''ETH'', is_active = True, tick_size = ''1'',
          minimum_amount = ''1'',
          option_details = Some \<lparr>details_expiry = 86400, details_strike = ''3500'',
            option_type = C\<rparr>\<rparr>]
        [''ETH-20250110-3500-C'' \<mapsto> \<lparr>ticker_instrument_name = ''ETH-20250110-3500-C'', best_bid_price = Some ''98'',
          best_ask_price = Some ''102'', best_bid_amount = ''1'', best_ask_amount = ''1'',
          mark_price = ''100'', ticker_index_price = ''3500'', option_pricing = None\<rparr>]) = [4]
   \<and> map lyra_instrument_name
     (executeFindLiquidOptions parseInt
        \<lparr>params_underlying = ''ETH'', params_option_type = C, min_days_to_expiry = 0,
         max_days_to_expiry = 30, strike_range_percent = None, max_spread_percent = Some 10\<rparr>
        0 3500
        [\<lparr>lyra_instrument_name = ''ETH-20250110-3500-C'', instrument_type = ''option'',
          underlying_currency = ''ETH'', is_active = True, tick_size = ''1'',
          minimum_amount = ''1'',
          option_details = Some \<lparr>details_expiry = 86400, details_strike = ''3500'',
            option_type = C\<rparr>\<rparr>]
        [''ETH-20250110-3500-C'' \<mapsto> \<lparr>ticker_instrument_name = ''ETH-20250110-3500-C'', best_bid_price = Some ''00'',
          best_ask_price = Some ''102'', best_bid_amount = ''1'', best_ask_amount = ''1'',
          mark_price = ''100'', ticker_index_price = ''3500'', option_pricing = None\<rparr>]) = [''ETH-20250110-3500-C'']
   \<and> map (map_option pricing_spread_percent) (map pricing
     (executeFindLiquidOptions parseInt
        \<lparr>params_underlying = ''ETH'', params_option_type = C, min_days_to_expiry = 0,
         max_days_to_expiry = 30, strike_range_percent = None, max_spread_percent = Some 10\<rparr>
        0 3500
        [\<lparr>lyra_instrument_name = ''ETH-20250110-3500-C'', instrument_type = ''option'',
          underlying_currency = ''ETH'', is_active = True, tick_size = ''1'',
          minimum_amount = ''1'',
          option_details = Some \<lparr>details_expiry = 86400, details_strike = ''3500'',
            option_type = C\<rparr>\<rparr>]
        [''ETH-20250110-3500-C'' \<mapsto> \<lparr>ticker_instrument_name = ''ETH-20250110-3500-C'', best_bid_price = Some ''00'',
          best_ask_price = Some ''102'', best_bid_amount = ''1'', best_ask_amount = ''1'',
          mark_price = ''100'', ticker_index_price = ''3500'', option_pricing = None\<rparr>])) = [Some None]"
  by (simp add: executeFindLiquidOptions_def Let_def in_range_def or_default_def
        List.map_filter_simps price_instrument_def live_price_def parseInt_def spread_key_def)

text \<open>
  Claim C6, amended. Every instrument returned by \<open>executeFindLiquidOptions\<close> is one of
  the candidates in range whose ticker has a live bid and a live ask (a price string that
  is present, not empty and not \<open>0\<close>). Its spread is \<open>(ask - bid) / mid * 100\<close> with
  \<open>mid = (bid + ask) / 2\<close> when bid and mid are positive, and null otherwise; a spread
  that is not null is at most the effective maximum, which is the caller's maximum when
  one is given and is not zero, and 10 otherwise. Every candidate in range with a live bid
  and ask whose spread is null or at most the effective maximum is returned. The result
  is sorted by ascending spread, a null spread counting as 100.
\<close>

theorem executeFindLiquidOptions_amended:
  "(\<forall>r \<in> set (executeFindLiquidOptions parseFloat params now index_price instruments tickers).
      \<exists>i t pr b a.
        i \<in> set instruments \<and> in_range parseFloat params now index_price i \<and>
        lyra_instrument_name r = lyra_instrument_name i \<and>
        tickers (lyra_instrument_name i) = Some t \<and> pricing r = Some pr \<and>
        live_price parseFloat (best_bid_price t) = Some b \<and> bid pr = Some b \<and>
        live_price parseFloat (best_ask_price t) = Some a \<and> ask pr = Some a \<and>
        pricing_spread_percent pr =
          (if 0 < b \<and> 0 < (b + a) / 2 then Some ((a - b) / ((b + a) / 2) * 100) else None) \<and>
        (case pricing_spread_percent pr of None \<Rightarrow> True
         | Some sp \<Rightarrow> sp \<le> or_default (max_spread_percent params) 10))
   \<and> (\<forall>i \<in> set instruments. \<forall>t b a.
        in_range parseFloat params now index_price i \<and>
        tickers (lyra_instrument_name i) = Some t \<and>
        live_price parseFloat (best_bid_price t) = Some b \<and>
        live_price parseFloat (best_ask_price t) = Some a \<and>
        (0 < b \<and> 0 < (b + a) / 2 \<longrightarrow>
           (a - b) / ((b + a) / 2) * 100 \<le> or_default (max_spread_percent params) 10)
        \<longrightarrow> (\<exists>r \<in> set (executeFindLiquidOptions parseFloat params now index_price instruments tickers).
               lyra_instrument_name r = lyra_instrument_name i))
   \<and> sorted (map spread_key
         (executeFindLiquidOptions parseFloat params now index_price instruments tickers))"
proof (intro conjI ballI allI impI)
  fix r
  assume "r \<in> set (executeFindLiquidOptions parseFloat params now index_price instruments tickers)"
  then obtain i where i: "i \<in> set instruments" "in_range parseFloat params now index_price i"
    and r: "price_instrument parseFloat (or_default (max_spread_percent params) 10) tickers i = Some r"
    by (auto simp: executeFindLiquidOptions_def Let_def set_map_filter)
  from price_instrument_sound [OF r] i
  show "\<exists>i t pr b a.
        i \<in> set instruments \<and> in_range parseFloat params now index_price i \<and>
        lyra_instrument_name r = lyra_instrument_name i \<and>
        tickers (lyra_instrument_name i) = Some t \<and> pricing r = Some pr \<and>
        live_price parseFloat (best_bid_price t) = Some b \<and> bid pr = Some b \<and>
        live_price parseFloat (best_ask_price t) = Some a \<and> ask pr = Some a \<and>
        pricing_spread_percent pr =
          (if 0 < b \<and> 0 < (b + a) / 2 then Some ((a - b) / ((b + a) / 2) * 100) else None) \<and>
        (case pricing_spread_percent pr of None \<Rightarrow> True
         | Some sp \<Rightarrow> sp \<le> or_default (max_spread_percent params) 10)"
    by blast
next
  fix i t b a
  assume i: "i \<in> set instruments"
    and h: "in_range parseFloat params now index_price i \<and>
        tickers (lyra_instrument_name i) = Some t \<and>
        live_price parseFloat (best_bid_price t) = Some b \<and>
        live_price parseFloat (best_ask_price t) = Some a \<and>
        (0 < b \<and> 0 < (b + a) / 2 \<longrightarrow>
           (a - b) / ((b + a) / 2) * 100 \<le> or_default (max_spread_percent params) 10)"
  then obtain r where
    r: "price_instrument parseFloat (or_default (max_spread_percent params) 10) tickers i = Some r"
      "lyra_instrument_name r = lyra_instrument_name i"
    using price_instrument_complete [of tickers i t parseFloat b a] by blast
  have "r \<in> set (executeFindLiquidOptions parseFloat params now index_price instruments tickers)"
    using i h r(1) by (auto simp: executeFindLiquidOptions_def Let_def set_map_filter)
  with r(2) show "\<exists>r \<in> set (executeFindLiquidOptions parseFloat params now index_price instruments tickers).
               lyra_instrument_name r = lyra_instrument_name i"
    by blast
next
  show "sorted (map spread_key
         (executeFindLiquidOptions parseFloat params now index_price instruments tickers))"
    by (simp add: executeFindLiquidOptions_def Let_def)
qed


theorem executeFindLiquidOptions_witness:
  "map lyra_instrument_name
     (executeFindLiquidOptions parseInt
        \<lparr>params_underlying = ''ETH'', params_option_type = C, min_days_to_expiry = 0,
         max_days_to_expiry = 30, strike_range_percent = None, max_spread_percent = Some 10\<rparr>
        0 3500
        [\<lparr>lyra_instrument_name = ''ETH-20250110-3600-C'', instrument_type = ''option'',
          underlying_currency = ''ETH'', is_active = True, tick_size = ''1'',
          minimum_amount = ''1'',
          option_details = Some \<lparr>details_expiry = 86400, details_strike = ''3600'',
            option_type = C\<rparr>\<rparr>,
         \<lparr>lyra_instrument_name = ''ETH-20250110-3500-C'', instrument_type = ''option'',
          underlying_currency = ''ETH'', is_active = True, tick_size = ''1'',
          minimum_amount = ''1'',
          option_details = Some \<lparr>details_expiry = 86400, details_strike = ''3500'',
            option_type = C\<rparr>\<rparr>]
        [''ETH-20250110-3500-C'' \<mapsto> \<lparr>ticker_instrument_name = ''ETH-20250110-3500-C'', best_bid_price = Some ''98'',
          best_ask_price = Some ''102'', best_bid_amount = ''1'', best_ask_amount = ''1'',
          mark_price = ''100'', ticker_index_price = ''3500'', option_pricing = None\<rparr>,
         ''ETH-20250110-3600-C'' \<mapsto> \<lparr>ticker_instrument_name = ''ETH-20250110-3600-C'', best_bid_price = Some ''94'',
          best_ask_price = Some ''106'', best_bid_amount = ''1'', best_ask_amount = ''1'',
          mark_price = ''100'', ticker_index_price = ''3500'', option_pricing = None\<rparr>]) = [''ETH-20250110-3500-C'']
   \<and> map spread_key
     (executeFindLiquidOptions parseInt
        \<lparr>params_underlying = ''ETH'', params_option_type = C, min_days_to_expiry = 0,
         max_days_to_expiry = 30, strike_range_percent = None, max_spread_percent = Some 10\<rparr>
        0 3500
        [\<lparr>lyra_instrument_name = ''ETH-20250110-3600-C'', instrument_type = ''option'',
          underlying_currency = ''ETH'', is_active = True, tick_size = ''1'',
          minimum_amount = ''1'',
          option_details = Some \<lparr>details_expiry = 86400, details_strike = ''3600'',
            option_type = C\<rparr>\<rparr>,
         \<lparr>lyra_instrument_name = ''ETH-20250110-3500-C'', instrument_type = ''option'',
          underlying_currency = ''ETH'', is_active = True, tick_size = ''1'',
          minimum_amount = ''1'',
          option_details = Some \<lparr>details_expiry = 86400, details_strike = ''3500'',
            option_type = C\<rparr>\<rparr>]
        [''ETH-20250110-3500-C'' \<mapsto> \<lparr>ticker_instrument_name = ''ETH-20250110-3500-C'', best_bid_price = Some ''98'',
          best_ask_price = Some ''102'', best_bid_amount = ''1'', best_ask_amount = ''1'',
          mark_price = ''100'', ticker_index_price = ''3500'', option_pricing = None\<rparr>,
         ''ETH-20250110-3600-C'' \<mapsto> \<lparr>ticker_instrument_name = ''ETH-20250110-3600-C'', best_bid_price = Some ''94'',
          best_ask_price = Some ''106'', best_bid_amount = ''1'', best_ask_amount = ''1'',
          mark_price = ''100'', ticker_index_price = ''3500'', option_pricing = None\<rparr>]) = [4]
   \<and> sorted (map spread_key
     (executeFindLiquidOptions parseInt
        \<lparr>params_underlying = ''ETH'', params_option_type = C, min_days_to_expiry = 0,
         max_days_to_expiry = 30, strike_range_percent = None, max_spread_percent = None\<rparr>
        0 3500
        [\<lparr>lyra_instrument_name = ''ETH-20250110-3600-C'', instrument_type = ''option'',
          underlying_currency = ''ETH'', is_active = True, tick_size = ''1'',
          minimum_amount = ''1'',
          option_details = Some \<lparr>details_expiry = 86400, details_strike = ''3600'',
            option_type = C\<rparr>\<rparr>,
         \<lparr>lyra_instrument_name = ''ETH-20250110-3500-C'', instrument_type = ''option'',
          underlying_currency = ''ETH'', is_active = True, tick_size = ''1'',
          minimum_amount = ''1'',
          option_details = Some \<lparr>details_expiry = 86400, details_strike = ''3500'',
            option_type = C\<rparr>\<rparr>]
        [''ETH-20250110-3500-C'' \<mapsto> \<lparr>ticker_instrument_name = ''ETH-20250110-3500-C'', best_bid_price = Some ''98'',
          best_ask_price = Some ''102'', best_bid_amount = ''1'', best_ask_amount = ''1'',
          mark_price = ''100'', ticker_index_price = ''3500'', option_pricing = None\<rparr>,
         ''ETH-20250110-3600-C'' \<mapsto> \<lparr>ticker_instrument_name = ''ETH-20250110-3600-C'', best_bid_price = Some ''97'',
          best_ask_price = Some ''103'', best_bid_amount = ''1'', best_ask_amount = ''1'',
          mark_price = ''100'', ticker_index_price = ''3500'', option_pricing = None\<rparr>]))
   \<and> map spread_key
     (executeFindLiquidOptions parseInt
        \<lparr>params_underlying = ''ETH'', params_option_type = C, min_days_to_expiry = 0,
         max_days_to_expiry = 30, strike_range_percent = None, max_spread_percent = None\<rparr>
        0 3500
        [\<lparr>lyra_instrument_name = ''ETH-20250110-3600-C'', instrument_type = ''option'',
          underlying_currency = ''ETH'', is_active = True, tick_size = ''1'',
          minimum_amount = ''1'',
          option_details = Some \<lparr>details_expiry = 86400, details_strike = ''3600'',
            option_type = C\<rparr>\<rparr>,
         \<lparr>lyra_instrument_name = ''ETH-20250110-3500-C'', instrument_type = ''option'',
          underlying_currency = ''ETH'', is_active = True, tick_size = ''1'',
          minimum_amount = ''1'',
          option_details = Some \<lparr>details_expiry = 86400, details_strike = ''3500'',
            option_type = C\<rparr>\<rparr>]
        [''ETH-20250110-3500-C'' \<mapsto> \<lparr>ticker_instrument_name = ''ETH-20250110-3500-C'', best_bid_price = Some ''98'',
          best_ask_price = Some ''102'', best_bid_amount = ''1'', best_ask_amount = ''1'',
          mark_price = ''100'', ticker_index_price = ''3500'', option_pricing = None\<rparr>,
         ''ETH-20250110-3600-C'' \<mapsto> \<lparr>ticker_instrument_name = ''ETH-20250110-3600-C'', best_bid_price = Some ''97'',
          best_ask_price = Some ''103'', best_bid_amount = ''1'', best_ask_amount = ''1'',
          mark_price = ''100'', ticker_index_price = ''3500'', option_pricing = None\<rparr>]) = [4, 6]"
proof -
  have "sorted (map spread_key
     (executeFindLiquidOptions parseInt
        \<lparr>params_underlying = ''ETH'', params_option_type = C, min_days_to_expiry = 0,
         max_days_to_expiry = 30, strike_range_percent = None, max_spread_percent = None\<rparr>
        0 3500
        [\<lparr>lyra_instrument_name = ''ETH-20250110-3600-C'', instrument_type = ''option'',
          underlying_currency = ''ETH'', is_active = True, tick_size = ''1'',
          minimum_amount = ''1'',
          option_details = Some \<lparr>details_expiry = 86400, details_strike = ''3600'',
            option_type = C\<rparr>\<rparr>,
         \<lparr>lyra_instrument_name = ''ETH-20250110-3500-C'', instrument_type = ''option'',
          underlying_currency = ''ETH'', is_active = True, tick_size = ''1'',
          minimum_amount = ''1'',
          option_details = Some \<lparr>details_expiry = 86400, details_strike = ''3500'',
            option_type = C\<rparr>\<rparr>]
        [''ETH-20250110-3500-C'' \<mapsto> \<lparr>ticker_instrument_name = ''ETH-20250110-3500-C'', best_bid_price = Some ''98'',
          best_ask_price = Some ''102'', best_bid_amount = ''1'', best_ask_amount = ''1'',
          mark_price = ''100'', ticker_index_price = ''3500'', option_pricing = None\<rparr>,
         ''ETH-20250110-3600-C'' \<mapsto> \<lparr>ticker_instrument_name = ''ETH-20250110-3600-C'', best_bid_price = Some ''97'',
          best_ask_price = Some ''103'', best_bid_amount = ''1'', best_ask_amount = ''1'',
          mark_price = ''100'', ticker_index_price = ''3500'', option_pricing = None\<rparr>]))"
    using executeFindLiquidOptions_amended by blast
  moreover have "map lyra_instrument_name
     (executeFindLiquidOptions parseInt
        \<lparr>params_underlying = ''ETH'', params_option_type = C, min_days_to_expiry = 0,
         max_days_to_expiry = 30, strike_range_percent = None, max_spread_percent = Some 10\<rparr>
        0 3500
        [\<lparr>lyra_instrument_name = ''ETH-20250110-3600-C'', instrument_type = ''option'',
          underlying_currency = ''ETH'', is_active = True, tick_size = ''1'',
          minimum_amount = ''1'',
          option_details = Some \<lparr>details_expiry = 86400, details_strike = ''3600'',
            option_type = C\<rparr>\<rparr>,
         \<lparr>lyra_instrument_name = ''ETH-20250110-3500-C'', instrument_type = ''option'',
          underlying_currency = ''ETH'', is_active = True, tick_size = ''1'',
          minimum_amount = ''1'',
          option_details = Some \<lparr>details_expiry = 86400, details_strike = ''3500'',
            option_type = C\<rparr>\<rparr>]
        [''ETH-20250110-3500-C'' \<mapsto> \<lparr>ticker_instrument_name = ''ETH-20250110-3500-C'', best_bid_price = Some ''98'',
          best_ask_price = Some ''102'', best_bid_amount = ''1'', best_ask_amount = ''1'',
          mark_price = ''100'', ticker_index_price = ''3500'', option_pricing = None\<rparr>,
         ''ETH-20250110-3600-C'' \<mapsto> \<lparr>ticker_instrument_name = ''ETH-20250110-3600-C'', best_bid_price = Some ''94'',
          best_ask_price = Some ''106'', best_bid_amount = ''1'', best_ask_amount = ''1'',
          mark_price = ''100'', ticker_index_price = ''3500'', option_pricing = None\<rparr>]) = [''ETH-20250110-3500-C'']
   \<and> map spread_key
     (executeFindLiquidOptions parseInt
        \<lparr>params_underlying = ''ETH'', params_option_type = C, min_days_to_expiry = 0,
         max_days_to_expiry = 30, strike_range_percent = None, max_spread_percent = Some 10\<rparr>
        0 3500
        [\<lparr>lyra_instrument_name = ''ETH-20250110-3600-C'', instrument_type = ''option'',
          underlying_currency = ''ETH'', is_active = True, tick_size = ''1'',
          minimum_amount = ''1'',
          option_details = Some \<lparr>details_expiry = 86400, details_strike = ''3600'',
            option_type = C\<rparr>\<rparr>,
         \<lparr>lyra_instrument_name = ''ETH-20250110-3500-C'', instrument_type = ''option'',
          underlying_currency = ''ETH'', is_active = True, tick_size = ''1'',
          minimum_amount = ''1'',
          option_details = Some \<lparr>details_expiry = 86400, details_strike = ''3500'',
            option_type = C\<rparr>\<rparr>]
        [''ETH-20250110-3500-C'' \<mapsto> \<lparr>ticker_instrument_name = ''ETH-20250110-3500-C'', best_bid_price = Some ''98'',
          best_ask_price = Some ''102'', best_bid_amount = ''1'', best_ask_amount = ''1'',
          mark_price = ''100'', ticker_index_price = ''3500'', option_pricing = None\<rparr>,
         ''ETH-20250110-3600-C'' \<mapsto> \<lparr>ticker_instrument_name = ''ETH-20250110-3600-C'', best_bid_price = Some ''94'',
          best_ask_price = Some ''106'', best_bid_amount = ''1'', best_ask_amount = ''1'',
          mark_price = ''100'', ticker_index_price = ''3500'', option_pricing = None\<rparr>]) = [4]
   \<and> map spread_key
     (executeFindLiquidOptions parseInt
        \<lparr>params_underlying = ''ETH'', params_option_type = C, min_days_to_expiry = 0,
         max_days_to_expiry = 30, strike_range_percent = None, max_spread_percent = None\<rparr>
        0 3500
        [\<lparr>lyra_instrument_name = ''ETH-20250110-3600-C'', instrument_type = ''option'',
          underlying_currency = ''ETH'', is_active = True, tick_size = ''1'',
          minimum_amount = ''1'',
          option_details = Some \<lparr>details_expiry = 86400, details_strike = ''3600'',
            option_type = C\<rparr>\<rparr>,
         \<lparr>lyra_instrument_name = ''ETH-20250110-3500-C'', instrument_type = ''option'',
          underlying_currency = ''ETH'', is_active = True, tick_size = ''1'',
          minimum_amount = ''1'',
          option_details = Some \<lparr>details_expiry = 86400, details_strike = ''3500'',
            option_type = C\<rparr>\<rparr>]
        [''ETH-20250110-3500-C'' \<mapsto> \<lparr>ticker_instrument_name = ''ETH-20250110-3500-C'', best_bid_price = Some ''98'',
          best_ask_price = Some ''102'', best_bid_amount = ''1'', best_ask_amount = ''1'',
          mark_price = ''100'', ticker_index_price = ''3500'', option_pricing = None\<rparr>,
         ''ETH-20250110-3600-C'' \<mapsto> \<lparr>ticker_instrument_name = ''ETH-20250110-3600-C'', best_bid_price = Some ''97'',
          best_ask_price = Some ''103'', best_bid_amount = ''1'', best_ask_amount = ''1'',
          mark_price = ''100'', ticker_index_price = ''3500'', option_pricing = None\<rparr>]) = [4, 6]"
    by (simp add: executeFindLiquidOptions_def Let_def in_range_def or_default_def
        List.map_filter_simps price_instrument_def live_price_def parseInt_def spread_key_def)
  ultimately show ?thesis
    by blast
qed

section \<open>Properties of the IntentResolutionLoop\<close>

lemma split_on_Some: "split_on pat s = Some (b, a) \<Longrightarrow> s = b @ pat @ a"
proof (induction s arbitrary: b)
  case Nil
  then show ?case by (simp split: if_splits)
next
  case (Cons c cs)
  show ?case
  proof (cases "take (length pat) (c # cs) = pat")
    case True
    then have "b = []" "a = drop (length pat) (c # cs)"
      using Cons.prems by simp_all
    then show ?thesis
      using True append_take_drop_id [of "length pat" "c # cs"] by simp
  next
    case False
    then obtain b' where "split_on pat cs = Some (b', a)" "b = c # b'"
      using Cons.prems by (auto split: option.splits)
    then show ?thesis
      using Cons.IH by simp
  qed
qed

lemma split_on_first:
  "split_on pat s = Some (b, a) \<Longrightarrow> s = u @ pat @ v \<Longrightarrow> length b \<le> length u"
proof (induction s arbitrary: b u)
  case Nil
  then show ?case by (simp split: if_splits)
next
  case (Cons c cs)
  show ?case
  proof (cases "take (length pat) (c # cs) = pat")
    case True
    with Cons.prems(1) have "b = []"
      by simp
    then show ?thesis by simp
  next
    case False
    with Cons.prems(1) obtain b' where b': "split_on pat cs = Some (b', a)" "b = c # b'"
      by (auto split: option.splits)
    have "u \<noteq> []"
    proof
      assume "u = []"
      then have "c # cs = pat @ v"
        using Cons.prems(2) by simp
      then have "take (length pat) (c # cs) = pat"
        by simp
      with False show False by simp
    qed
    then obtain u' where u': "u = c # u'" "cs = u' @ pat @ v"
      using Cons.prems(2) by (cases u) auto
    from Cons.IH [OF b'(1) u'(2)] show ?thesis
      using b'(2) u'(1) by simp
  qed
qed

lemma split_on_complete:
  "s = b @ pat @ a \<Longrightarrow> (\<forall>u v. s = u @ pat @ v \<longrightarrow> length b \<le> length u) \<Longrightarrow>
   split_on pat s = Some (b, a)"
proof (induction b arbitrary: s)
  case Nil
  show ?case
  proof (cases s)
    case Nil
    with Nil.prems(1) show ?thesis by simp
  next
    case (Cons c cs)
    have "take (length pat) s = pat" "drop (length pat) s = a"
      using Nil.prems(1) by simp_all
    then show ?thesis
      unfolding Cons by simp
  qed
next
  case (Cons c b')
  let ?cs = "b' @ pat @ a"
  have s: "s = c # ?cs"
    using Cons.prems(1) by simp
  have nt: "take (length pat) (c # ?cs) \<noteq> pat"
  proof
    assume t: "take (length pat) (c # ?cs) = pat"
    have "c # ?cs = take (length pat) (c # ?cs) @ drop (length pat) (c # ?cs)"
      by (simp only: append_take_drop_id)
    then have "s = [] @ pat @ drop (length pat) (c # ?cs)"
      unfolding s t by simp
    then have "length (c # b') \<le> length ([] :: string)"
      using Cons.prems(2) by blast
    then show False by simp
  qed
  have "\<forall>u v. ?cs = u @ pat @ v \<longrightarrow> length b' \<le> length u"
  proof (intro allI impI)
    fix u v assume "?cs = u @ pat @ v"
    then have "s = (c # u) @ pat @ v"
      unfolding s by simp
    then have "length (c # b') \<le> length (c # u)"
      using Cons.prems(2) by blast
    then show "length b' \<le> length u" by simp
  qed
  then have "split_on pat ?cs = Some (b', a)"
    by (intro Cons.IH) simp_all
  then show ?case
    unfolding s using nt by simp
qed

lemma split_on_occurs:
  "s = u @ pat @ v \<Longrightarrow> \<exists>b a. split_on pat s = Some (b, a)"
proof (induction s arbitrary: u)
  case Nil
  then show ?case by simp
next
  case (Cons c cs)
  show ?case
  proof (cases "take (length pat) (c # cs) = pat")
    case True
    then show ?thesis by simp
  next
    case False
    have "u \<noteq> []"
    proof
      assume "u = []"
      then have "c # cs = pat @ v"
        using Cons.prems by simp
      then have "take (length pat) (c # cs) = pat"
        by simp
      with False show False by simp
    qed
    then obtain u' where "cs = u' @ pat @ v"
      using Cons.prems by (cases u) auto
    from Cons.IH [OF this] obtain b a where "split_on pat cs = Some (b, a)"
      by blast
    then show ?thesis
      using False by simp
  qed
qed

lemma object_match_span:
  assumes "object_match text = Some m"
  shows "\<exists>pre post. text = pre @ m @ post \<and> CHR ''{'' \<notin> set pre \<and> CHR ''}'' \<notin> set post \<and>
           hd m = CHR ''{'' \<and> last m = CHR ''}''"
proof -
  let ?r = "dropWhile (\<lambda>c. c \<noteq> CHR ''{'') text"
  let ?pre = "takeWhile (\<lambda>c. c \<noteq> CHR ''{'') text"
  let ?d = "dropWhile (\<lambda>c. c \<noteq> CHR ''}'') (rev ?r)"
  let ?post = "rev (takeWhile (\<lambda>c. c \<noteq> CHR ''}'') (rev ?r))"
  from assms have mem: "CHR ''}'' \<in> set ?r" and m: "m = rev ?d"
    by (auto simp: object_match_def Let_def split: if_splits)
  have whole: "text = ?pre @ ?r"
    by simp
  have "rev ?r = takeWhile (\<lambda>c. c \<noteq> CHR ''}'') (rev ?r) @ ?d"
    by simp
  then have "rev (rev ?r) = rev (takeWhile (\<lambda>c. c \<noteq> CHR ''}'') (rev ?r) @ ?d)"
    by (rule arg_cong)
  then have r: "?r = m @ ?post"
    unfolding m by (simp only: rev_rev_ident rev_append)
  have pre: "CHR ''{'' \<notin> set ?pre"
    by (auto dest: set_takeWhileD)
  have post: "CHR ''}'' \<notin> set ?post"
    by (auto dest: set_takeWhileD)
  have rne: "?r \<noteq> []"
    using mem by (metis empty_iff empty_set)
  then have hr: "hd ?r = CHR ''{''"
    using hd_dropWhile [of "\<lambda>c. c \<noteq> CHR ''{''" "text"] by simp
  have dne: "?d \<noteq> []"
    using mem by (simp add: dropWhile_eq_Nil_conv)
  then have hd_d: "hd ?d = CHR ''}''"
    using hd_dropWhile [of "\<lambda>c. c \<noteq> CHR ''}''" "rev ?r"] by simp
  have mne: "m \<noteq> []"
    using dne m by simp
  have last: "last m = CHR ''}''"
    using hd_d dne by (simp add: m last_rev)
  have "hd m = hd ?r"
    using r mne by (metis hd_append2)
  with hr have hd: "hd m = CHR ''{''"
    by simp
  from whole r have "text = ?pre @ m @ ?post"
    by simp
  with pre post hd last show ?thesis
    by blast
qed

lemma list_all_takeWhile: "list_all Q (takeWhile Q xs)"
  by (induction xs) simp_all

lemma dropWhile_all_append:
  "list_all Q xs \<Longrightarrow> dropWhile Q (xs @ ys) = dropWhile Q ys"
  by (induction xs) simp_all

lemma dropWhile_keeps_fence:
  "r = x @ ''```'' @ c \<Longrightarrow> \<exists>y. dropWhile is_space r = y @ ''```'' @ c"
proof (induction r arbitrary: x)
  case Nil
  then show ?case by simp
next
  case (Cons d ds)
  show ?case
  proof (cases "is_space d")
    case False
    then have "dropWhile is_space (d # ds) = d # ds"
      by simp
    then show ?thesis
      unfolding Cons.prems by blast
  next
    case True
    have "x \<noteq> []"
    proof
      assume "x = []"
      then have "d = CHR ''`''"
        using Cons.prems by simp
      with True show False
        by (simp add: is_space_def)
    qed
    then obtain x' where "ds = x' @ ''```'' @ c"
      using Cons.prems by (cases x) auto
    from Cons.IH [OF this] show ?thesis
      using True by simp
  qed
qed

lemma drop_json_keeps_fence:
  assumes "take 4 (x @ ''```'' @ c) = ''json''"
  shows "\<exists>y. drop 4 (x @ ''```'' @ c) = y @ ''```'' @ c"
proof -
  have "\<not> length x < 4"
  proof
    assume l: "length x < 4"
    have "(x @ ''```'' @ c) ! length x = CHR ''`''"
      by (simp add: nth_append)
    moreover have "take 4 (x @ ''```'' @ c) ! length x = (x @ ''```'' @ c) ! length x"
      using l by (rule nth_take)
    ultimately have n: "''json'' ! length x = CHR ''`''"
      unfolding assms by simp
    from l have "length x = 0 \<or> length x = 1 \<or> length x = 2 \<or> length x = 3"
      by linarith
    then show False
      using n by (elim disjE) (simp_all add: numeral_2_eq_2 numeral_3_eq_3)
  qed
  then have "drop 4 (x @ ''```'' @ c) = drop 4 x @ ''```'' @ c"
    by simp
  then show ?thesis by blast
qed

lemma fenced_match_unfold:
  assumes "split_on ''```'' s = Some (pre, r1)"
  shows "fenced_match s =
      (case split_on ''```'' (dropWhile is_space (if take 4 r1 = ''json'' then drop 4 r1 else r1)) of
         None \<Rightarrow> None
       | Some (body, after) \<Rightarrow> Some (rev (dropWhile is_space (rev body))))"
  unfolding fenced_match_def assms by (simp only: option.case prod.case Let_def)

lemma fenced_match_first_block:
  assumes "fenced_match s = Some g"
  shows "first_fenced_block s g"
proof -
  obtain pre r1 where s1: "split_on ''```'' s = Some (pre, r1)"
  proof (cases "split_on ''```'' s")
    case None
    then have "fenced_match s = None"
      by (simp add: fenced_match_def)
    with assms show ?thesis by simp
  next
    case (Some pr)
    then show ?thesis
      using that by (cases pr) simp
  qed
  define tag where "tag = (if take 4 r1 = ''json'' then ''json'' else [])"
  define r2 where "r2 = (if take 4 r1 = ''json'' then drop 4 r1 else r1)"
  define r3 where "r3 = dropWhile is_space r2"
  have fm: "fenced_match s =
      (case split_on ''```'' r3 of None \<Rightarrow> None
       | Some (body, after) \<Rightarrow> Some (rev (dropWhile is_space (rev body))))"
    unfolding r3_def r2_def by (rule fenced_match_unfold [OF s1])
  obtain body post where s2: "split_on ''```'' r3 = Some (body, post)"
  proof (cases "split_on ''```'' r3")
    case None
    then have "fenced_match s = None"
      unfolding fm by simp
    with assms show ?thesis by simp
  next
    case (Some pr)
    then show ?thesis
      using that by (cases pr) simp
  qed
  have g: "g = rev (dropWhile is_space (rev body))"
    using assms unfolding fm s2 by simp
  define ws1 where "ws1 = takeWhile is_space r2"
  define ws2 where "ws2 = rev (takeWhile is_space (rev body))"
  have t: "s = pre @ ''```'' @ r1"
    using s1 by (rule split_on_Some)
  have r1: "r1 = tag @ r2"
  proof (cases "take 4 r1 = ''json''")
    case True
    have "r1 = take 4 r1 @ drop 4 r1"
      by simp
    then have j: "r1 = ''json'' @ drop 4 r1"
      unfolding True .
    have "tag = ''json''" "r2 = drop 4 r1"
      unfolding tag_def r2_def by (rule if_P, rule True)+
    then show ?thesis
      using j by (simp only:)
  next
    case False
    have "tag = []" "r2 = r1"
      unfolding tag_def r2_def by (rule if_not_P, rule False)+
    then show ?thesis
      by simp
  qed
  have r2: "r2 = ws1 @ r3"
    unfolding ws1_def r3_def by simp
  have r3: "r3 = body @ ''```'' @ post"
    using s2 by (rule split_on_Some)
  have "rev body = takeWhile is_space (rev body) @ dropWhile is_space (rev body)"
    by simp
  then have "rev (rev body) = rev (takeWhile is_space (rev body) @ dropWhile is_space (rev body))"
    by (rule arg_cong)
  then have b: "body = g @ ws2"
    unfolding g ws2_def by (simp only: rev_rev_ident rev_append)
  have w1: "list_all is_space ws1"
    unfolding ws1_def by (rule list_all_takeWhile)
  have w2: "list_all is_space ws2"
    unfolding ws2_def using list_all_takeWhile [of is_space "rev body"] by (simp add: list_all_iff)
  have "s = pre @ ''```'' @ (tag @ (ws1 @ ((g @ ws2) @ ''```'' @ post)))"
    using t unfolding r1 [symmetric] r2 [symmetric] b [symmetric] r3 [symmetric] .
  then have whole: "s = pre @ ''```'' @ tag @ ws1 @ g @ ws2 @ ''```'' @ post"
    by (simp only: append_assoc)
  have rest: "ws1 @ g @ ws2 @ ''```'' @ post = r2"
    unfolding r2 r3 b by simp
  have tg: "tag = ''json'' \<or> tag = [] \<and> take 4 (ws1 @ g @ ws2 @ ''```'' @ post) \<noteq> ''json''"
  proof (cases "take 4 r1 = ''json''")
    case True
    then show ?thesis
      unfolding tag_def by simp
  next
    case False
    then have "tag = []" "r2 = r1"
      unfolding tag_def r2_def by simp_all
    then show ?thesis
      unfolding rest using False by simp
  qed
  have first: "\<forall>u v. s = u @ ''```'' @ v \<longrightarrow> length pre \<le> length u"
    using split_on_first [OF s1] by blast
  have closing: "\<forall>u v. g @ ws2 @ ''```'' @ post = u @ ''```'' @ v \<longrightarrow> length (g @ ws2) \<le> length u"
    using split_on_first [OF s2] unfolding r3 b by simp
  have r3ne: "r3 \<noteq> []"
    unfolding r3 by simp
  then have h3: "\<not> is_space (hd r3)"
    unfolding r3_def by (rule hd_dropWhile)
  have e: "g = [] \<longrightarrow> ws2 = []"
  proof
    assume "g = []"
    then have r3': "r3 = ws2 @ ''```'' @ post"
      unfolding r3 b by simp
    show "ws2 = []"
    proof (rule ccontr)
      assume "ws2 \<noteq> []"
      then have "hd r3 = hd ws2" "is_space (hd ws2)"
        unfolding r3' using w2 by (cases ws2; simp)+
      with h3 show False by simp
    qed
  qed
  have ne: "g \<noteq> [] \<longrightarrow> \<not> is_space (hd g) \<and> \<not> is_space (last g)"
  proof
    assume gne: "g \<noteq> []"
    then have "hd r3 = hd g"
      unfolding r3 b by simp
    with h3 have a1: "\<not> is_space (hd g)" by simp
    have d: "dropWhile is_space (rev body) \<noteq> []"
      using gne unfolding g by simp
    have "last g = hd (dropWhile is_space (rev body))"
      unfolding g using d by (simp add: last_rev)
    moreover have "\<not> is_space (hd (dropWhile is_space (rev body)))"
      using d by (rule hd_dropWhile)
    ultimately show "\<not> is_space (hd g) \<and> \<not> is_space (last g)"
      using a1 by simp
  qed
  show ?thesis
    unfolding first_fenced_block_def
    using whole first tg w1 w2 e ne closing by blast
qed

lemma strip_right:
  assumes "list_all is_space ws" and "g = [] \<or> \<not> is_space (last g)"
  shows "rev (dropWhile is_space (rev (g @ ws))) = g"
proof -
  have "list_all is_space (rev ws)"
    using assms(1) by (simp add: list_all_iff)
  then have "dropWhile is_space (rev (g @ ws)) = dropWhile is_space (rev g)"
    by (simp add: dropWhile_all_append)
  also have "\<dots> = rev g"
  proof (cases "g = []")
    case True
    then show ?thesis by simp
  next
    case False
    then have "hd (rev g) = last g"
      by (simp add: hd_rev)
    then have "\<not> is_space (hd (rev g))"
      using assms(2) False by simp
    then show ?thesis
      by (simp add: dropWhile_eq_self_iff)
  qed
  finally show ?thesis
    by simp
qed

lemma first_block_fenced_match:
  assumes "first_fenced_block s g"
  shows "fenced_match s = Some g"
proof -
  from assms obtain pre tag ws1 ws2 post where
    whole: "s = pre @ ''```'' @ tag @ ws1 @ g @ ws2 @ ''```'' @ post"
    and first: "\<forall>u v. s = u @ ''```'' @ v \<longrightarrow> length pre \<le> length u"
    and tg: "tag = ''json'' \<or> tag = [] \<and> take 4 (ws1 @ g @ ws2 @ ''```'' @ post) \<noteq> ''json''"
    and w1: "list_all is_space ws1" and w2: "list_all is_space ws2"
    and e: "g = [] \<longrightarrow> ws2 = []"
    and ne: "g \<noteq> [] \<longrightarrow> \<not> is_space (hd g) \<and> \<not> is_space (last g)"
    and closing: "\<forall>u v. g @ ws2 @ ''```'' @ post = u @ ''```'' @ v \<longrightarrow> length (g @ ws2) \<le> length u"
    unfolding first_fenced_block_def by blast
  define rest where "rest = g @ ws2 @ ''```'' @ post"
  define r1 where "r1 = tag @ ws1 @ rest"
  have whole': "s = pre @ ''```'' @ r1"
    unfolding r1_def rest_def using whole by simp
  have s1: "split_on ''```'' s = Some (pre, r1)"
    using whole' first by (rule split_on_complete)
  have r2: "(if take 4 r1 = ''json'' then drop 4 r1 else r1) = ws1 @ rest"
  proof (cases "tag = ''json''")
    case True
    then show ?thesis
      unfolding r1_def by simp
  next
    case False
    then have "tag = []" "take 4 (ws1 @ rest) \<noteq> ''json''"
      using tg unfolding rest_def by simp_all
    then show ?thesis
      unfolding r1_def by simp
  qed
  have hrest: "rest \<noteq> [] \<and> \<not> is_space (hd rest)"
  proof (cases "g = []")
    case True
    then have "rest = ''```'' @ post"
      unfolding rest_def using e by simp
    then show ?thesis
      by (simp add: is_space_def)
  next
    case False
    then have "hd rest = hd g" "rest \<noteq> []"
      unfolding rest_def by simp_all
    then show ?thesis
      using ne False by simp
  qed
  have r3: "dropWhile is_space (ws1 @ rest) = rest"
    using w1 hrest by (simp add: dropWhile_all_append dropWhile_eq_self_iff)
  have rest': "rest = (g @ ws2) @ ''```'' @ post"
    unfolding rest_def by simp
  have closing': "\<forall>u v. rest = u @ ''```'' @ v \<longrightarrow> length (g @ ws2) \<le> length u"
    using closing unfolding rest_def .
  have s2: "split_on ''```'' rest = Some (g @ ws2, post)"
    using rest' closing' by (rule split_on_complete)
  have strip: "rev (dropWhile is_space (rev (g @ ws2))) = g"
    using w2 ne by (intro strip_right) auto
  show ?thesis
    unfolding fenced_match_unfold [OF s1] r2 r3 s2 using strip by simp
qed

lemma drop_append_le: "n \<le> length xs \<Longrightarrow> drop n (xs @ ys) = drop n xs @ ys"
  by simp

lemma fenced_match_iff: "(fenced_match s = Some g) = first_fenced_block s g"
  using fenced_match_first_block first_block_fenced_match by blast

lemma fenced_match_None_iff: "(fenced_match s = None) = (\<not> has_fence_pair s)"
proof
  assume n: "fenced_match s = None"
  show "\<not> has_fence_pair s"
  proof
    assume "has_fence_pair s"
    then obtain a b c where abc: "s = a @ ''```'' @ b @ ''```'' @ c"
      unfolding has_fence_pair_def by blast
    from split_on_occurs [OF abc] obtain pre r1 where s1: "split_on ''```'' s = Some (pre, r1)"
      by blast
    have t: "s = pre @ ''```'' @ r1"
      using s1 by (rule split_on_Some)
    have le: "length pre \<le> length a"
      using s1 abc by (rule split_on_first)
    have "drop (length pre + 3) (pre @ ''```'' @ r1) = r1"
      by simp
    then have d1: "drop (length pre + 3) s = r1"
      unfolding t [symmetric] .
    have "length pre + 3 \<le> length (a @ ''```'' @ b)"
      using le by simp
    then have "drop (length pre + 3) ((a @ ''```'' @ b) @ ''```'' @ c)
        = drop (length pre + 3) (a @ ''```'' @ b) @ ''```'' @ c"
      by (rule drop_append_le)
    then have d2: "drop (length pre + 3) s
        = drop (length pre + 3) (a @ ''```'' @ b) @ ''```'' @ c"
      unfolding abc by (simp only: append_assoc)
    have "\<exists>x. r1 = x @ ''```'' @ c"
      using d1 d2 by metis
    then obtain x where x: "r1 = x @ ''```'' @ c"
      by blast
    have "\<exists>y. (if take 4 r1 = ''json'' then drop 4 r1 else r1) = y @ ''```'' @ c"
    proof (cases "take 4 r1 = ''json''")
      case True
      then have "take 4 (x @ ''```'' @ c) = ''json''"
        unfolding x .
      from drop_json_keeps_fence [OF this] show ?thesis
        unfolding x using True by simp
    next
      case False
      then show ?thesis
        using x by simp
    qed
    then obtain y where
      "(if take 4 r1 = ''json'' then drop 4 r1 else r1) = y @ ''```'' @ c"
      by blast
    from dropWhile_keeps_fence [OF this] obtain z where
      "dropWhile is_space (if take 4 r1 = ''json'' then drop 4 r1 else r1) = z @ ''```'' @ c"
      by blast
    from split_on_occurs [OF this] obtain body post where
      "split_on ''```'' (dropWhile is_space (if take 4 r1 = ''json'' then drop 4 r1 else r1))
         = Some (body, post)"
      by blast
    then have "fenced_match s \<noteq> None"
      unfolding fenced_match_unfold [OF s1] by simp
    with n show False by simp
  qed
next
  assume h: "\<not> has_fence_pair s"
  show "fenced_match s = None"
  proof (rule ccontr)
    assume "fenced_match s \<noteq> None"
    then obtain g where "fenced_match s = Some g"
      by blast
    then have "first_fenced_block s g"
      by (rule fenced_match_first_block)
    then obtain pre tag ws1 ws2 post where
      "s = pre @ ''```'' @ tag @ ws1 @ g @ ws2 @ ''```'' @ post"
      unfolding first_fenced_block_def by blast
    then have "s = pre @ ''```'' @ (tag @ ws1 @ g @ ws2) @ ''```'' @ post"
      by simp
    then have "has_fence_pair s"
      unfolding has_fence_pair_def by blast
    with h show False by simp
  qed
qed

lemma object_match_brace_span:
  assumes "object_match s = Some m"
  shows "brace_span s m"
proof -
  from object_match_span [OF assms] obtain pre post where
    p: "s = pre @ m @ post" "CHR ''{'' \<notin> set pre" "CHR ''}'' \<notin> set post"
       "hd m = CHR ''{''" "last m = CHR ''}''"
    by blast
  let ?r = "dropWhile (\<lambda>c. c \<noteq> CHR ''{'') s"
  from assms have mem: "CHR ''}'' \<in> set ?r"
    and m: "m = rev (dropWhile (\<lambda>c. c \<noteq> CHR ''}'') (rev ?r))"
    by (auto simp: object_match_def Let_def split: if_splits)
  have "CHR ''}'' \<in> set (rev ?r)"
    using mem by simp
  then have "dropWhile (\<lambda>c. c \<noteq> CHR ''}'') (rev ?r) \<noteq> []"
    by (simp add: dropWhile_eq_Nil_conv)
  then have "m \<noteq> []"
    unfolding m by simp
  with p show ?thesis
    unfolding brace_span_def by blast
qed

lemma dropWhile_none_append:
  "\<forall>x \<in> set xs. Q x \<Longrightarrow> dropWhile Q (xs @ ys) = dropWhile Q ys"
  by (induction xs) simp_all

lemma brace_span_object_match:
  assumes "brace_span s m"
  shows "object_match s = Some m"
proof -
  from assms obtain pre post where
    p: "s = pre @ m @ post" "CHR ''{'' \<notin> set pre" "CHR ''}'' \<notin> set post"
       "m \<noteq> []" "hd m = CHR ''{''" "last m = CHR ''}''"
    unfolding brace_span_def by blast
  have "dropWhile (\<lambda>c. c \<noteq> CHR ''{'') s = dropWhile (\<lambda>c. c \<noteq> CHR ''{'') (m @ post)"
    unfolding p(1) using p(2) by (intro dropWhile_none_append) auto
  also have "\<dots> = m @ post"
    using p(4,5) by (simp add: dropWhile_eq_self_iff)
  finally have r: "dropWhile (\<lambda>c. c \<noteq> CHR ''{'') s = m @ post" .
  have mem: "CHR ''}'' \<in> set (m @ post)"
    using p(4,6) last_in_set [of m] by auto
  have "dropWhile (\<lambda>c. c \<noteq> CHR ''}'') (rev post @ rev m)
      = dropWhile (\<lambda>c. c \<noteq> CHR ''}'') (rev m)"
    using p(3) by (intro dropWhile_none_append) auto
  then have "dropWhile (\<lambda>c. c \<noteq> CHR ''}'') (rev (m @ post))
      = dropWhile (\<lambda>c. c \<noteq> CHR ''}'') (rev m)"
    by simp
  also have "\<dots> = rev m"
    using p(4,6) by (simp add: dropWhile_eq_self_iff hd_rev)
  finally have "rev (dropWhile (\<lambda>c. c \<noteq> CHR ''}'') (rev (m @ post))) = m"
    by simp
  then show ?thesis
    unfolding object_match_def r using mem by (simp add: Let_def)
qed

lemma object_match_iff: "(object_match s = Some m) = brace_span s m"
  using object_match_brace_span brace_span_object_match by blast

lemma object_match_None_iff: "(object_match s = None) = (\<not> has_brace_pair s)"
proof
  assume n: "object_match s = None"
  show "\<not> has_brace_pair s"
  proof
    assume "has_brace_pair s"
    then obtain a b c where abc: "s = a @ ''{'' @ b @ ''}'' @ c"
      unfolding has_brace_pair_def by blast
    have "\<exists>y. dropWhile (\<lambda>c. c \<noteq> CHR ''{'') (a @ CHR ''{'' # b @ CHR ''}'' # c)
             = y @ CHR ''{'' # b @ CHR ''}'' # c"
      by (induction a) auto
    then have "CHR ''}'' \<in> set (dropWhile (\<lambda>c. c \<noteq> CHR ''{'') s)"
      unfolding abc by auto
    then have "object_match s \<noteq> None"
      by (simp add: object_match_def Let_def)
    with n show False by simp
  qed
next
  assume h: "\<not> has_brace_pair s"
  show "object_match s = None"
  proof (rule ccontr)
    assume "object_match s \<noteq> None"
    then obtain m where "object_match s = Some m"
      by blast
    then have "brace_span s m"
      by (rule object_match_brace_span)
    then obtain pre post where
      p: "s = pre @ m @ post" "m \<noteq> []" "hd m = CHR ''{''" "last m = CHR ''}''"
      unfolding brace_span_def by blast
    obtain m' where m': "m = CHR ''{'' # m'"
      using p(2,3) by (cases m) auto
    have "m' \<noteq> []"
      using p(4) unfolding m' by (cases m') auto
    then obtain b where "m' = b @ ''}''"
      using p(4) unfolding m' by (metis append_butlast_last_id last_ConsR)
    then have "s = pre @ ''{'' @ b @ ''}'' @ post"
      using p(1) m' by simp
    then have "has_brace_pair s"
      unfolding has_brace_pair_def by blast
    with h show False by simp
  qed
qed

lemma zod_string_min1_Inr: "zod_string_min1 path msg v = Inr str \<Longrightarrow> str \<noteq> []"
  by (auto simp: zod_string_min1_def split: option.splits json.splits if_splits)

lemma zod_number_positive_Inr: "zod_number_positive path msg v = Inr n \<Longrightarrow> 0 < n"
  by (auto simp: zod_number_positive_def split: option.splits json.splits if_splits)

lemma zod_number_nonnegative_Inr: "zod_number_nonnegative path msg v = Inr n \<Longrightarrow> 0 \<le> n"
  by (auto simp: zod_number_nonnegative_def split: option.splits json.splits if_splits)

lemma ap_InrE:
  assumes "ap f x = Inr r"
  obtains g y where "f = Inr g" "x = Inr y" "r = g y"
  using assms by (cases f; cases x) simp_all

lemma LegSchema_Inr:
  assumes "LegSchema path v = Inr leg"
  shows "instrument_name leg \<noteq> [] \<and> 0 < amount leg"
proof (cases v)
  case None
  with assms show ?thesis by (simp add: LegSchema_def)
next
  case (Some j)
  show ?thesis
  proof (cases j)
    case (JObj members)
    from assms [unfolded LegSchema_def Some JObj option.case json.case]
    show ?thesis
      by (elim ap_InrE) (auto dest: zod_string_min1_Inr zod_number_positive_Inr)
  qed (use assms Some in \<open>simp_all add: LegSchema_def\<close>)
qed

lemma collect_Inr:
  "collect rs = Inr ls \<Longrightarrow> length ls = length rs \<and> (\<forall>l \<in> set ls. Inr l \<in> set rs)"
proof (induction rs arbitrary: ls)
  case Nil
  then show ?case by simp
next
  case (Cons r rs)
  from Cons.prems have "ap (ap (Inr (#)) r) (collect rs) = Inr ls"
    by simp
  then obtain x tl where tl: "collect rs = Inr tl" and ls: "ls = x # tl" and r: "r = Inr x"
    by (elim ap_InrE) auto
  show ?case
    using Cons.IH [OF tl] ls r by auto
qed

lemma zod_legs_Inr:
  assumes "zod_legs path msg v = Inr ls"
  shows "ls \<noteq> [] \<and> list_all (\<lambda>leg. instrument_name leg \<noteq> [] \<and> 0 < amount leg) ls"
proof (cases v)
  case None
  with assms show ?thesis by (simp add: zod_legs_def)
next
  case (Some j)
  show ?thesis
  proof (cases j)
    case (JArr xs)
    let ?rs = "map (\<lambda>(i, x). LegSchema (path @ [Index i]) (Some x)) (enumerate 0 xs)"
    from assms [unfolded zod_legs_def Some JArr option.case json.case]
    have c: "collect ?rs = Inr ls" and ne: "\<not> length xs < 1"
      by (elim ap_InrE; auto split: if_splits)+
    from collect_Inr [OF c] have len: "length ls = length xs"
      and mem: "\<forall>l \<in> set ls. Inr l \<in> set ?rs"
      by simp_all
    have "instrument_name l \<noteq> [] \<and> 0 < amount l" if "l \<in> set ls" for l
    proof -
      from mem that obtain i x where "LegSchema (path @ [Index i]) (Some x) = Inr l"
        by force
      then show ?thesis
        by (rule LegSchema_Inr)
    qed
    then show ?thesis
      using ne len by (auto simp: list_all_iff)
  qed (use assms Some in \<open>simp_all add: zod_legs_def\<close>)
qed

lemma TradeSpecSchema_valid:
  assumes "TradeSpecSchema_safeParse v = Inr spec"
  shows "valid_TradeSpec spec"
proof (cases v)
  case (JObj members)
  from assms [unfolded TradeSpecSchema_safeParse_def JObj json.case]
  show ?thesis
    by (elim ap_InrE)
       (auto dest: zod_string_min1_Inr zod_number_nonnegative_Inr zod_legs_Inr
             simp: valid_TradeSpec_def)
qed (use assms in \<open>simp_all add: TradeSpecSchema_safeParse_def\<close>)

lemma LegSchema_json_of_Leg:
  "instrument_name leg \<noteq> [] \<Longrightarrow> 0 < amount leg \<Longrightarrow>
   LegSchema path (Some (json_of_Leg leg)) = Inr leg"
  by (cases "side leg")
     (simp_all add: LegSchema_def json_of_Leg_def zod_string_min1_def zod_enum_side_def
        zod_number_positive_def)

lemma collect_json_of_Leg:
  "list_all (\<lambda>leg. instrument_name leg \<noteq> [] \<and> 0 < amount leg) ls \<Longrightarrow>
   collect (map (\<lambda>(i, x). LegSchema (path @ [Index i]) (Some x))
                (enumerate n (map json_of_Leg ls))) = Inr ls"
  by (induction ls arbitrary: n) (simp_all add: LegSchema_json_of_Leg)

lemma TradeSpecSchema_json_of_TradeSpec:
  assumes "valid_TradeSpec spec"
  shows "TradeSpecSchema_safeParse (json_of_TradeSpec spec) = Inr spec"
proof -
  have l: "zod_legs [Key ''legs''] ''At least one leg is required''
             (Some (JArr (map json_of_Leg (legs spec)))) = Inr (legs spec)"
    using assms collect_json_of_Leg [of "legs spec" "[Key ''legs'']" 0]
    by (simp add: zod_legs_def valid_TradeSpec_def)
  show ?thesis
    using assms
    by (simp add: TradeSpecSchema_safeParse_def json_of_TradeSpec_def l zod_string_min1_def
        zod_number_nonnegative_def valid_TradeSpec_def)
qed

lemma extractTradeSpec_Inr:
  "extractTradeSpec jp text = Inr spec \<Longrightarrow>
   \<exists>parsed. jp (json_candidate text) = Some parsed \<and> TradeSpecSchema_safeParse parsed = Inr spec"
  by (auto simp: extractTradeSpec_def split: option.splits sum.splits)


lemma tool_results_count_append:
  "tool_results_count (ms @ ms') = tool_results_count ms + tool_results_count ms'"
  by (induction ms rule: tool_results_count.induct) simp_all

lemma loop_stop:
  "\<not> iterations st < MAX_ITERATIONS \<Longrightarrow>
   parseIntent_loop env st = (Inl (IterationsExceeded MAX_ITERATIONS), st)"
  by (subst parseIntent_loop.simps) simp

lemma loop_retry:
  assumes "iterations st < MAX_ITERATIONS"
    and "filter (is_new_tool_use (toolIdsProcessed st)) (content (llm env (messages st))) = []"
    and "stop_reason (llm env (messages st)) = Some ''end_turn''"
    and "concat (map block_text (content (llm env (messages st)))) \<noteq> []"
    and "toolCallCount st < 2"
  shows "parseIntent_loop env st =
     parseIntent_loop env
       (st\<lparr> iterations := iterations st + 1,
            messages := messages st @
              [AssistantMessage [TextBlock (concat (map block_text (content (llm env (messages st)))))],
               UserText (corrective env (toolCallCount st))] \<rparr>)"
  using assms by (subst parseIntent_loop.simps) (simp add: Let_def)

lemma loop_step:
  assumes "iterations st < MAX_ITERATIONS"
  shows "(\<exists>st'. parseIntent_loop env st = parseIntent_loop env st' \<and>
               iterations st' = iterations st + 1 \<and>
               tool_results_count (messages st') + toolCallCount st
                 = tool_results_count (messages st) + toolCallCount st')
       \<or> (\<exists>text. parseIntent_loop env st =
               (extractTradeSpec (json_parse env) text, st\<lparr> iterations := iterations st + 1 \<rparr>) \<and>
               2 \<le> toolCallCount st)
       \<or> (\<exists>e. parseIntent_loop env st = (Inl e, st\<lparr> iterations := iterations st + 1 \<rparr>))"
proof -
  let ?resp = "llm env (messages st)"
  let ?tools = "filter (is_new_tool_use (toolIdsProcessed st)) (content ?resp)"
  let ?text = "concat (map block_text (content ?resp))"
  show ?thesis
  proof (cases "length ?tools > 0")
    case True
    let ?st' = "st\<lparr> iterations := iterations st + 1,
                   toolCallCount := toolCallCount st + length ?tools,
                   messages := messages st @
                     [AssistantMessage (content ?resp),
                      UserToolResults
                        (map (\<lambda>(k, b). run_tool env (toolCallCount st + k) b)
                             (enumerate 0 ?tools))],
                   toolIdsProcessed := toolIdsProcessed st \<union> set (map block_id ?tools) \<rparr>"
    have "parseIntent_loop env st = parseIntent_loop env ?st'"
      using assms True by (subst parseIntent_loop.simps) (simp add: Let_def)
    moreover have "iterations ?st' = iterations st + 1"
      by simp
    moreover have "tool_results_count (messages ?st') + toolCallCount st
                 = tool_results_count (messages st) + toolCallCount ?st'"
      by (simp add: tool_results_count_append)
    ultimately show ?thesis
      by blast
  next
    case no_tools: False
    show ?thesis
    proof (cases "stop_reason ?resp = Some ''end_turn'' \<and> ?text \<noteq> []")
      case True
      show ?thesis
      proof (cases "toolCallCount st < 2")
        case few: True
        let ?st' = "st\<lparr> iterations := iterations st + 1,
            messages := messages st @
              [AssistantMessage [TextBlock ?text], UserText (corrective env (toolCallCount st))] \<rparr>"
        have "parseIntent_loop env st = parseIntent_loop env ?st'"
          using assms no_tools True few by (intro loop_retry) simp_all
        moreover have "iterations ?st' = iterations st + 1"
          by simp
        moreover have "tool_results_count (messages ?st') + toolCallCount st
                 = tool_results_count (messages st) + toolCallCount ?st'"
          by (simp add: tool_results_count_append)
        ultimately show ?thesis
          by blast
      next
        case False
        have "parseIntent_loop env st =
               (extractTradeSpec (json_parse env) ?text, st\<lparr> iterations := iterations st + 1 \<rparr>)"
          using assms no_tools True False by (subst parseIntent_loop.simps) (simp add: Let_def)
        then show ?thesis
          using False by auto
      qed
    next
      case False
      have "parseIntent_loop env st =
               (Inl (UnexpectedState (stop_reason ?resp) (?text \<noteq> [])),
                st\<lparr> iterations := iterations st + 1 \<rparr>)"
        using assms no_tools False by (subst parseIntent_loop.simps) (auto simp: Let_def)
      then show ?thesis
        by blast
    qed
  qed
qed

lemma loop_result:
  "(iterations st \<le> MAX_ITERATIONS \<longrightarrow>
      iterations (snd (parseIntent_loop env st)) \<le> MAX_ITERATIONS)
   \<and> (tool_results_count (messages st) = toolCallCount st \<longrightarrow>
      tool_results_count (messages (snd (parseIntent_loop env st)))
        = toolCallCount (snd (parseIntent_loop env st)))
   \<and> (\<forall>spec. fst (parseIntent_loop env st) = Inr spec \<longrightarrow>
        2 \<le> toolCallCount (snd (parseIntent_loop env st)) \<and>
        (\<exists>text. extractTradeSpec (json_parse env) text = Inr spec))"
proof (induction "MAX_ITERATIONS - iterations st" arbitrary: st rule: less_induct)
  case less
  show ?case
  proof (cases "iterations st < MAX_ITERATIONS")
    case False
    then show ?thesis
      by (simp add: loop_stop)
  next
    case True
    from loop_step [OF True, of env]
    consider (continue) st' where "parseIntent_loop env st = parseIntent_loop env st'"
        "iterations st' = iterations st + 1"
        "tool_results_count (messages st') + toolCallCount st
                 = tool_results_count (messages st) + toolCallCount st'"
      | (accept) final where "parseIntent_loop env st =
               (extractTradeSpec (json_parse env) final, st\<lparr> iterations := iterations st + 1 \<rparr>)"
               "2 \<le> toolCallCount st"
      | (fail) e where "parseIntent_loop env st = (Inl e, st\<lparr> iterations := iterations st + 1 \<rparr>)"
      by blast
    then show ?thesis
    proof cases
      case continue
      have "MAX_ITERATIONS - iterations st' < MAX_ITERATIONS - iterations st"
        using True continue(2) by simp
      from less [OF this] show ?thesis
        unfolding continue(1) using True continue(2,3) by auto
    next
      case accept
      then show ?thesis
        using True by auto
    next
      case fail
      then show ?thesis
        using True by auto
    qed
  qed
qed


lemma loop_step_messages:
  assumes "iterations st < MAX_ITERATIONS"
  shows "(\<exists>st' ext. parseIntent_loop env st = parseIntent_loop env st' \<and>
               iterations st' = iterations st + 1 \<and> messages st' = messages st @ ext)
       \<or> (\<exists>r. parseIntent_loop env st = (r, st\<lparr> iterations := iterations st + 1 \<rparr>))"
proof -
  let ?resp = "llm env (messages st)"
  let ?tools = "filter (is_new_tool_use (toolIdsProcessed st)) (content ?resp)"
  let ?text = "concat (map block_text (content ?resp))"
  show ?thesis
  proof (cases "length ?tools > 0")
    case True
    let ?st' = "st\<lparr> iterations := iterations st + 1,
                   toolCallCount := toolCallCount st + length ?tools,
                   messages := messages st @
                     [AssistantMessage (content ?resp),
                      UserToolResults
                        (map (\<lambda>(k, b). run_tool env (toolCallCount st + k) b)
                             (enumerate 0 ?tools))],
                   toolIdsProcessed := toolIdsProcessed st \<union> set (map block_id ?tools) \<rparr>"
    have "parseIntent_loop env st = parseIntent_loop env ?st'"
      using assms True by (subst parseIntent_loop.simps) (simp add: Let_def)
    moreover have "iterations ?st' = iterations st + 1"
      by simp
    moreover have "messages ?st' = messages st @
                     [AssistantMessage (content ?resp),
                      UserToolResults
                        (map (\<lambda>(k, b). run_tool env (toolCallCount st + k) b)
                             (enumerate 0 ?tools))]"
      by simp
    ultimately show ?thesis
      by blast
  next
    case no_tools: False
    show ?thesis
    proof (cases "stop_reason ?resp = Some ''end_turn'' \<and> ?text \<noteq> [] \<and> toolCallCount st < 2")
      case True
      let ?st' = "st\<lparr> iterations := iterations st + 1,
            messages := messages st @
              [AssistantMessage [TextBlock ?text], UserText (corrective env (toolCallCount st))] \<rparr>"
      have "parseIntent_loop env st = parseIntent_loop env ?st'"
        using assms no_tools True by (intro loop_retry) simp_all
      moreover have "iterations ?st' = iterations st + 1"
        by simp
      moreover have "messages ?st' = messages st @
              [AssistantMessage [TextBlock ?text], UserText (corrective env (toolCallCount st))]"
        by simp
      ultimately show ?thesis
        by blast
    next
      case False
      have "\<exists>r. parseIntent_loop env st = (r, st\<lparr> iterations := iterations st + 1 \<rparr>)"
        using assms no_tools False by (subst parseIntent_loop.simps) (auto simp: Let_def)
      then show ?thesis
        by blast
    qed
  qed
qed

lemma loop_grows:
  "(\<exists>rest. messages (snd (parseIntent_loop env st)) = messages st @ rest)
   \<and> iterations st \<le> iterations (snd (parseIntent_loop env st))
   \<and> (iterations st < MAX_ITERATIONS \<longrightarrow>
        iterations st + 1 \<le> iterations (snd (parseIntent_loop env st)))"
proof (induction "MAX_ITERATIONS - iterations st" arbitrary: st rule: less_induct)
  case less
  show ?case
  proof (cases "iterations st < MAX_ITERATIONS")
    case False
    then show ?thesis
      by (simp add: loop_stop)
  next
    case True
    from loop_step_messages [OF True, of env]
    consider (continue) st' ext where "parseIntent_loop env st = parseIntent_loop env st'"
        "iterations st' = iterations st + 1" "messages st' = messages st @ ext"
      | (return) r where "parseIntent_loop env st = (r, st\<lparr> iterations := iterations st + 1 \<rparr>)"
      by blast
    then show ?thesis
    proof cases
      case continue
      have "MAX_ITERATIONS - iterations st' < MAX_ITERATIONS - iterations st"
        using True continue(2) by simp
      from less [OF this] show ?thesis
        unfolding continue(1) using continue(2,3) by auto
    next
      case return
      then show ?thesis
        by simp
    qed
  qed
qed

lemma loop_Inr_running:
  "fst (parseIntent_loop env st) = Inr spec \<Longrightarrow> iterations st < MAX_ITERATIONS"
  using loop_stop [of st env] by (cases "iterations st < MAX_ITERATIONS") auto

text \<open>
  Claim C5 as stated fails. The brace pattern is matched against the whole text, after
  the fence pattern, and its match replaces the content of the fenced block: in the first
  text the block holds \<open>{x}\<close>, and the candidate is the span from the first opening
  brace of the text to its last closing brace. That span is greedy, not the first
  balanced object: in the second text it is the whole text, not \<open>{a}\<close>.
\<close>

theorem json_candidate_counterexample:
  "fenced_match ''Plan {draft}: ```json {x} ``` done'' = Some ''{x}''
   \<and> json_candidate ''Plan {draft}: ```json {x} ``` done'' = ''{draft}: ```json {x}''
   \<and> fenced_match ''{a} and {b}'' = None
   \<and> json_candidate ''{a} and {b}'' = ''{a} and {b}''"
  by (simp add: json_candidate_def fenced_match_def object_match_def is_space_def trim_def)

text \<open>
  Claim C5, amended. The candidate that \<open>extractTradeSpec\<close> parses is the content of the
  first fenced block when the text has one and the text has no brace pair, or has the
  content of that block as its brace span (as when the block holds one JSON object and no
  brace stands before or after the block). When the text has no fenced block the candidate
  is the brace span of the text, from its first opening brace to its last closing brace (not
  the first balanced object), if there is one, and the trimmed text otherwise. A text with
  two fences has a first fenced block, a text with a brace pair has a brace span, and each
  is unique. When \<open>JSON.parse\<close> rejects the candidate the result is the parse error, with
  the first 200 characters of the text; when the parsed value fails the schema the result
  is the validation error with the issues. A TradeSpec is returned only when
  \<open>JSON.parse\<close> accepts the candidate and the parsed value passes the schema; a returned
  TradeSpec has non-empty strings, a non-empty list of legs with non-empty instrument
  names and positive amounts, and non-negative cost and loss limits (the side is \<open>buy\<close>
  or \<open>sell\<close> by its type); and when the candidate parses to the JSON value of a
  TradeSpec of that shape, that TradeSpec is returned. Nothing is said here about a text
  whose first fenced block has a content other than the brace span of the text.
\<close>

theorem extractTradeSpec_amended:
  "(\<forall>g. first_fenced_block text g \<and> (\<not> has_brace_pair text \<or> brace_span text g) \<longrightarrow>
        json_candidate text = g)
   \<and> (\<forall>m. \<not> has_fence_pair text \<and> brace_span text m \<longrightarrow> json_candidate text = m)
   \<and> (\<not> has_fence_pair text \<and> \<not> has_brace_pair text \<longrightarrow> json_candidate text = trim text)
   \<and> (has_fence_pair text \<longrightarrow> (\<exists>g. first_fenced_block text g))
   \<and> (\<forall>g g'. first_fenced_block text g \<and> first_fenced_block text g' \<longrightarrow> g = g')
   \<and> (has_brace_pair text \<longrightarrow> (\<exists>m. brace_span text m))
   \<and> (\<forall>m m'. brace_span text m \<and> brace_span text m' \<longrightarrow> m = m')
   \<and> (jp (json_candidate text) = None \<longrightarrow>
        extractTradeSpec jp text = Inl (JsonParseFailed (take 200 text)))
   \<and> (\<forall>parsed issues. jp (json_candidate text) = Some parsed \<and>
          TradeSpecSchema_safeParse parsed = Inl issues \<longrightarrow>
        extractTradeSpec jp text = Inl (SchemaValidationFailed issues))
   \<and> (\<forall>spec. extractTradeSpec jp text = Inr spec \<longrightarrow>
        (\<exists>parsed. jp (json_candidate text) = Some parsed \<and>
                  TradeSpecSchema_safeParse parsed = Inr spec) \<and>
        valid_TradeSpec spec)
   \<and> (\<forall>spec. valid_TradeSpec spec \<and> jp (json_candidate text) = Some (json_of_TradeSpec spec)
        \<longrightarrow> extractTradeSpec jp text = Inr spec)"
proof (intro conjI allI impI)
  fix g assume a: "first_fenced_block text g \<and> (\<not> has_brace_pair text \<or> brace_span text g)"
  then have f: "fenced_match text = Some g"
    by (simp add: fenced_match_iff)
  from a have "object_match text = None \<or> object_match text = Some g"
    by (simp add: object_match_None_iff object_match_iff)
  then show "json_candidate text = g"
    using f by (auto simp: json_candidate_def)
next
  fix m assume "\<not> has_fence_pair text \<and> brace_span text m"
  then have "fenced_match text = None" "object_match text = Some m"
    by (simp_all add: fenced_match_None_iff object_match_iff)
  then show "json_candidate text = m"
    by (simp add: json_candidate_def)
next
  assume "\<not> has_fence_pair text \<and> \<not> has_brace_pair text"
  then have "fenced_match text = None" "object_match text = None"
    by (simp_all add: fenced_match_None_iff object_match_None_iff)
  then show "json_candidate text = trim text"
    by (simp add: json_candidate_def)
next
  assume "has_fence_pair text"
  then have "fenced_match text \<noteq> None"
    by (simp add: fenced_match_None_iff)
  then show "\<exists>g. first_fenced_block text g"
    by (auto simp: fenced_match_iff [symmetric])
next
  fix g g' assume "first_fenced_block text g \<and> first_fenced_block text g'"
  then show "g = g'"
    by (auto simp: fenced_match_iff [symmetric])
next
  assume "has_brace_pair text"
  then have "object_match text \<noteq> None"
    by (simp add: object_match_None_iff)
  then show "\<exists>m. brace_span text m"
    by (auto simp: object_match_iff [symmetric])
next
  fix m m' assume "brace_span text m \<and> brace_span text m'"
  then show "m = m'"
    by (auto simp: object_match_iff [symmetric])
next
  assume "jp (json_candidate text) = None"
  then show "extractTradeSpec jp text = Inl (JsonParseFailed (take 200 text))"
    by (simp add: extractTradeSpec_def)
next
  fix parsed issues
  assume "jp (json_candidate text) = Some parsed \<and> TradeSpecSchema_safeParse parsed = Inl issues"
  then show "extractTradeSpec jp text = Inl (SchemaValidationFailed issues)"
    by (simp add: extractTradeSpec_def)
next
  fix spec assume a: "extractTradeSpec jp text = Inr spec"
  then show "\<exists>parsed. jp (json_candidate text) = Some parsed \<and>
                  TradeSpecSchema_safeParse parsed = Inr spec"
    by (rule extractTradeSpec_Inr)
  then show "valid_TradeSpec spec"
    by (auto dest: TradeSpecSchema_valid)
next
  fix spec
  assume "valid_TradeSpec spec \<and> jp (json_candidate text) = Some (json_of_TradeSpec spec)"
  then show "extractTradeSpec jp text = Inr spec"
    by (simp add: extractTradeSpec_def TradeSpecSchema_json_of_TradeSpec)
qed

theorem extractTradeSpec_amended_witness:
  "json_candidate ''Here it is: ```json {x} ``` done'' = ''{x}''
   \<and> json_candidate ''Here it is: ```json [1] ``` done'' = ''[1]''
   \<and> json_candidate ''Result {x} ok'' = ''{x}''
   \<and> json_candidate '' [2] '' = ''[2]''
   \<and> valid_TradeSpec
       \<lparr>underlying = ''ETH'', strategy = ''Long Call'', expiry = ''20250110'',
        legs = [\<lparr>instrument_name = ''ETH-20250110-3500-C'', side = buy, amount = 1\<rparr>],
        max_cost_usd = 150, max_loss_usd = 200, explanation = ''ok''\<rparr>"
proof -
  let ?jp = "\<lambda>str :: string. Some (JObj [(''underlying'', JStr ''ETH''), (''strategy'', JStr ''Long Call''),
          (''expiry'', JStr ''20250110''),
          (''legs'', JArr [JObj [(''instrument_name'', JStr ''ETH-20250110-3500-C''),
                                 (''side'', JStr ''buy''), (''amount'', JNum 1)]]),
          (''max_cost_usd'', JNum 150), (''max_loss_usd'', JNum 200),
          (''explanation'', JStr ''ok'')])"
  have "fenced_match ''Here it is: ```json {x} ``` done'' = Some ''{x}''"
    by (simp add: fenced_match_def is_space_def)
  then have f0: "first_fenced_block ''Here it is: ```json {x} ``` done'' ''{x}''"
    unfolding fenced_match_iff .
  have "object_match ''Here it is: ```json {x} ``` done'' = Some ''{x}''"
    by (simp add: object_match_def)
  then have o0: "brace_span ''Here it is: ```json {x} ``` done'' ''{x}''"
    unfolding object_match_iff .
  have "object_match ''Here it is: ```json [1] ``` done'' = None"
    by (simp add: object_match_def)
  then have o1: "\<not> has_brace_pair ''Here it is: ```json [1] ``` done''"
    unfolding object_match_None_iff .
  have "fenced_match ''Here it is: ```json [1] ``` done'' = Some ''[1]''"
    by (simp add: fenced_match_def is_space_def)
  then have f1: "first_fenced_block ''Here it is: ```json [1] ``` done'' ''[1]''"
    unfolding fenced_match_iff .
  have "fenced_match ''Result {x} ok'' = None"
    by (simp add: fenced_match_def)
  then have f2: "\<not> has_fence_pair ''Result {x} ok''"
    unfolding fenced_match_None_iff .
  have "object_match ''Result {x} ok'' = Some ''{x}''"
    by (simp add: object_match_def)
  then have o2: "brace_span ''Result {x} ok'' ''{x}''"
    unfolding object_match_iff .
  have "fenced_match '' [2] '' = None"
    by (simp add: fenced_match_def)
  then have f3: "\<not> has_fence_pair '' [2] ''"
    unfolding fenced_match_None_iff .
  have "object_match '' [2] '' = None"
    by (simp add: object_match_def)
  then have o3: "\<not> has_brace_pair '' [2] ''"
    unfolding object_match_None_iff .
  have t3: "trim '' [2] '' = ''[2]''"
    by (simp add: trim_def is_space_def)
  have e: "extractTradeSpec ?jp ''{}'' = Inr
       \<lparr>underlying = ''ETH'', strategy = ''Long Call'', expiry = ''20250110'',
        legs = [\<lparr>instrument_name = ''ETH-20250110-3500-C'', side = buy, amount = 1\<rparr>],
        max_cost_usd = 150, max_loss_usd = 200, explanation = ''ok''\<rparr>"
    by (simp add: extractTradeSpec_def TradeSpecSchema_safeParse_def zod_string_min1_def
        zod_number_nonnegative_def zod_legs_def LegSchema_def zod_enum_side_def
        zod_number_positive_def enumerate_eq_zip)
  have z: "json_candidate ''Here it is: ```json {x} ``` done'' = ''{x}''"
    using extractTradeSpec_amended [of "''Here it is: ```json {x} ``` done''"] f0 o0 by blast
  have a: "json_candidate ''Here it is: ```json [1] ``` done'' = ''[1]''"
    using extractTradeSpec_amended [of "''Here it is: ```json [1] ``` done''"] o1 f1 by blast
  have b: "json_candidate ''Result {x} ok'' = ''{x}''"
    using extractTradeSpec_amended [of "''Result {x} ok''"] f2 o2 by blast
  have "json_candidate '' [2] '' = trim '' [2] ''"
    using extractTradeSpec_amended [of "'' [2] ''"] f3 o3 by blast
  then have c: "json_candidate '' [2] '' = ''[2]''"
    unfolding t3 .
  have d: "valid_TradeSpec
       \<lparr>underlying = ''ETH'', strategy = ''Long Call'', expiry = ''20250110'',
        legs = [\<lparr>instrument_name = ''ETH-20250110-3500-C'', side = buy, amount = 1\<rparr>],
        max_cost_usd = 150, max_loss_usd = 200, explanation = ''ok''\<rparr>"
    using extractTradeSpec_amended [of "''{}''" ?jp] e by blast
  from z a b c d show ?thesis
    by (intro conjI)
qed

text \<open>
  Claim C2. Take a turn of the loop in which the model sends no new tool-use block, stops
  with \<open>end_turn\<close> and has sent text, while fewer than 2 tool calls have been made. The
  text of that turn is not extracted. The loop goes on from the state in which the
  iteration is counted and the model's text and the corrective instruction are appended
  to the conversation, so the conversation that \<open>parseIntent\<close> ends with begins with the
  conversation so far, that text and the corrective instruction, and the iteration count
  it ends with is larger. When the turn is the tenth, the retry has used up the budget: the
  result is the error that names the bound, whatever the text was, in the state with the
  two messages appended. A TradeSpec is returned only after one more request to the model
  at least. Whenever the loop returns a TradeSpec at least 2 tool calls have been made, and
  the conversation of \<open>parseIntent\<close> then holds at least 2 tool results.
\<close>

theorem insufficient_tools_retry:
  "(iterations st < MAX_ITERATIONS \<and>
     filter (is_new_tool_use (toolIdsProcessed st)) (content (llm env (messages st))) = [] \<and>
     stop_reason (llm env (messages st)) = Some ''end_turn'' \<and>
     concat (map block_text (content (llm env (messages st)))) \<noteq> [] \<and>
     toolCallCount st < 2
     \<longrightarrow> parseIntent_loop env st =
         parseIntent_loop env
           (st\<lparr> iterations := iterations st + 1,
                messages := messages st @
                  [AssistantMessage [TextBlock (concat (map block_text (content (llm env (messages st)))))],
                   UserText (corrective env (toolCallCount st))] \<rparr>)
       \<and> (\<exists>rest. messages (snd (parseIntent_loop env st)) =
           messages st @
             [AssistantMessage [TextBlock (concat (map block_text (content (llm env (messages st)))))],
              UserText (corrective env (toolCallCount st))] @ rest)
       \<and> iterations st + 1 \<le> iterations (snd (parseIntent_loop env st))
       \<and> (iterations st = 9 \<longrightarrow>
          parseIntent_loop env st =
            (Inl (IterationsExceeded 10),
             (st\<lparr> iterations := iterations st + 1,
                messages := messages st @
                  [AssistantMessage [TextBlock (concat (map block_text (content (llm env (messages st)))))],
                   UserText (corrective env (toolCallCount st))] \<rparr>)))
       \<and> (\<forall>spec. fst (parseIntent_loop env st) = Inr spec \<longrightarrow>
          iterations st + 2 \<le> iterations (snd (parseIntent_loop env st))))
   \<and> (\<forall>spec. fst (parseIntent_loop env st) = Inr spec \<longrightarrow>
        2 \<le> toolCallCount (snd (parseIntent_loop env st)))
   \<and> (\<forall>spec. fst (parseIntent env intent) = Inr spec \<longrightarrow>
        2 \<le> tool_results_count (messages (snd (parseIntent env intent))))"
proof (intro conjI allI impI)
  fix spec assume "fst (parseIntent_loop env st) = Inr spec"
  then show "2 \<le> toolCallCount (snd (parseIntent_loop env st))"
    using loop_result [of st env] by blast
next
  fix spec assume a: "fst (parseIntent env intent) = Inr spec"
  let ?st = "\<lparr> messages =
           [UserText (''Parse this trading intent and create an optimal trade using real market data:''
              @ [CHR 0x0A, CHR 0x0A, CHR 0x22] @ intent @ [CHR 0x22, CHR 0x0A, CHR 0x0A]
              @ ''Remember: You MUST call lyra_get_index_price and lyra_find_liquid_options BEFORE outputting any TradeSpec.'')],
         iterations = 0, toolCallCount = 0, toolIdsProcessed = {} \<rparr>"
  have p: "parseIntent env intent = parseIntent_loop env ?st"
    by (simp only: parseIntent_def)
  have "tool_results_count (messages ?st) = toolCallCount ?st"
    by simp
  then have "tool_results_count (messages (snd (parseIntent_loop env ?st)))
        = toolCallCount (snd (parseIntent_loop env ?st))"
    using loop_result [of ?st env] by blast
  moreover have "2 \<le> toolCallCount (snd (parseIntent_loop env ?st))"
    using a loop_result [of ?st env] unfolding p by blast
  ultimately show "2 \<le> tool_results_count (messages (snd (parseIntent env intent)))"
    unfolding p by simp
next
  assume R: "iterations st < MAX_ITERATIONS \<and>
     filter (is_new_tool_use (toolIdsProcessed st)) (content (llm env (messages st))) = [] \<and>
     stop_reason (llm env (messages st)) = Some ''end_turn'' \<and>
     concat (map block_text (content (llm env (messages st)))) \<noteq> [] \<and>
     toolCallCount st < 2"
  let ?st' = "(st\<lparr> iterations := iterations st + 1,
                messages := messages st @
                  [AssistantMessage [TextBlock (concat (map block_text (content (llm env (messages st)))))],
                   UserText (corrective env (toolCallCount st))] \<rparr>)"
  show eq: "parseIntent_loop env st =
         parseIntent_loop env
           (st\<lparr> iterations := iterations st + 1,
                messages := messages st @
                  [AssistantMessage [TextBlock (concat (map block_text (content (llm env (messages st)))))],
                   UserText (corrective env (toolCallCount st))] \<rparr>)"
    using R by (intro loop_retry) simp_all
  from loop_grows [of env ?st']
  obtain rest where rest: "messages (snd (parseIntent_loop env ?st')) = messages ?st' @ rest"
    and it: "iterations ?st' \<le> iterations (snd (parseIntent_loop env ?st'))"
    and run: "iterations ?st' < MAX_ITERATIONS \<longrightarrow>
        iterations ?st' + 1 \<le> iterations (snd (parseIntent_loop env ?st'))"
    by blast
  show "\<exists>rest. messages (snd (parseIntent_loop env st)) =
           messages st @
             [AssistantMessage [TextBlock (concat (map block_text (content (llm env (messages st)))))],
              UserText (corrective env (toolCallCount st))] @ rest"
    unfolding eq using rest by simp
  show "iterations st + 1 \<le> iterations (snd (parseIntent_loop env st))"
    unfolding eq using it by simp
  show "parseIntent_loop env st =
            (Inl (IterationsExceeded 10),
             (st\<lparr> iterations := iterations st + 1,
                messages := messages st @
                  [AssistantMessage [TextBlock (concat (map block_text (content (llm env (messages st)))))],
                   UserText (corrective env (toolCallCount st))] \<rparr>))"
    if "iterations st = 9"
    unfolding eq using that loop_stop [of ?st' env] by (simp add: MAX_ITERATIONS_def)
  show "iterations st + 2 \<le> iterations (snd (parseIntent_loop env st))"
    if "fst (parseIntent_loop env st) = Inr spec" for spec
  proof -
    have "iterations ?st' < MAX_ITERATIONS"
      using that unfolding eq by (rule loop_Inr_running)
    then show ?thesis
      unfolding eq using run by simp
  qed
qed

theorem insufficient_tools_retry_witness:
  "parseIntent_loop
     \<lparr>llm = (\<lambda>ms. \<lparr>content = [TextBlock ''{}''], stop_reason = Some ''end_turn''\<rparr>),
       executeLyraTool = (\<lambda>k name inp. Inr JNull),
       stringify = (\<lambda>j. ''null''),
       json_parse = (\<lambda>str. Some (JObj [(''underlying'', JStr ''ETH''), (''strategy'', JStr ''Long Call''),
          (''expiry'', JStr ''20250110''),
          (''legs'', JArr [JObj [(''instrument_name'', JStr ''ETH-20250110-3500-C''),
                                 (''side'', JStr ''buy''), (''amount'', JNum 1)]]),
          (''max_cost_usd'', JNum 150), (''max_loss_usd'', JNum 200),
          (''explanation'', JStr ''ok'')])),
       nat_to_string = (\<lambda>n. ''1'')\<rparr>
     \<lparr>messages = [UserText ''go''], iterations = 9, toolCallCount = 1, toolIdsProcessed = {''t1''}\<rparr>
   = (Inl (IterationsExceeded 10),
      \<lparr>messages = [UserText ''go'', AssistantMessage [TextBlock ''{}''],
                   UserText ''ERROR: You must call lyra_get_index_price AND lyra_find_liquid_options before outputting a TradeSpec. You have only made 1 tool calls. Please call the required tools now.''],
        iterations = 10, toolCallCount = 1, toolIdsProcessed = {''t1''}\<rparr>)
   \<and> 2 \<le> toolCallCount (snd (parseIntent
     \<lparr>llm = (\<lambda>ms. if length ms = 1
                 then \<lparr>content = [ToolUseBlock ''t1'' ''lyra_get_index_price'' JNull,
                                  ToolUseBlock ''t2'' ''lyra_find_liquid_options'' JNull],
                       stop_reason = Some ''tool_use''\<rparr>
                 else \<lparr>content = [TextBlock ''{}''], stop_reason = Some ''end_turn''\<rparr>),
       executeLyraTool = (\<lambda>k name inp. Inr JNull),
       stringify = (\<lambda>j. ''null''),
       json_parse = (\<lambda>str. Some (JObj [(''underlying'', JStr ''ETH''), (''strategy'', JStr ''Long Call''),
          (''expiry'', JStr ''20250110''),
          (''legs'', JArr [JObj [(''instrument_name'', JStr ''ETH-20250110-3500-C''),
                                 (''side'', JStr ''buy''), (''amount'', JNum 1)]]),
          (''max_cost_usd'', JNum 150), (''max_loss_usd'', JNum 200),
          (''explanation'', JStr ''ok'')])),
       nat_to_string = (\<lambda>n. ''n'')\<rparr> ''go''))"
proof -
  let ?env0 = "\<lparr>llm = (\<lambda>ms. \<lparr>content = [TextBlock ''{}''], stop_reason = Some ''end_turn''\<rparr>),
       executeLyraTool = (\<lambda>k name inp. Inr JNull),
       stringify = (\<lambda>j. ''null''),
       json_parse = (\<lambda>str. Some (JObj [(''underlying'', JStr ''ETH''), (''strategy'', JStr ''Long Call''),
          (''expiry'', JStr ''20250110''),
          (''legs'', JArr [JObj [(''instrument_name'', JStr ''ETH-20250110-3500-C''),
                                 (''side'', JStr ''buy''), (''amount'', JNum 1)]]),
          (''max_cost_usd'', JNum 150), (''max_loss_usd'', JNum 200),
          (''explanation'', JStr ''ok'')])),
       nat_to_string = (\<lambda>n. ''1'')\<rparr>"
  let ?env1 = "\<lparr>llm = (\<lambda>ms. if length ms = 1
                 then \<lparr>content = [ToolUseBlock ''t1'' ''lyra_get_index_price'' JNull,
                                  ToolUseBlock ''t2'' ''lyra_find_liquid_options'' JNull],
                       stop_reason = Some ''tool_use''\<rparr>
                 else \<lparr>content = [TextBlock ''{}''], stop_reason = Some ''end_turn''\<rparr>),
       executeLyraTool = (\<lambda>k name inp. Inr JNull),
       stringify = (\<lambda>j. ''null''),
       json_parse = (\<lambda>str. Some (JObj [(''underlying'', JStr ''ETH''), (''strategy'', JStr ''Long Call''),
          (''expiry'', JStr ''20250110''),
          (''legs'', JArr [JObj [(''instrument_name'', JStr ''ETH-20250110-3500-C''),
                                 (''side'', JStr ''buy''), (''amount'', JNum 1)]]),
          (''max_cost_usd'', JNum 150), (''max_loss_usd'', JNum 200),
          (''explanation'', JStr ''ok'')])),
       nat_to_string = (\<lambda>n. ''n'')\<rparr>"
  let ?st0 = "\<lparr>messages = [UserText ''go''], iterations = 9, toolCallCount = 1, toolIdsProcessed = {''t1''}\<rparr>"
  have "iterations ?st0 < MAX_ITERATIONS \<and>
     filter (is_new_tool_use (toolIdsProcessed ?st0)) (content (llm ?env0 (messages ?st0))) = [] \<and>
     stop_reason (llm ?env0 (messages ?st0)) = Some ''end_turn'' \<and>
     concat (map block_text (content (llm ?env0 (messages ?st0)))) \<noteq> [] \<and>
     toolCallCount ?st0 < 2"
    by (simp add: MAX_ITERATIONS_def)
  moreover have "iterations ?st0 = 9"
    by simp
  ultimately have "parseIntent_loop ?env0 ?st0 =
            (Inl (IterationsExceeded 10),
             (?st0\<lparr> iterations := iterations ?st0 + 1,
                messages := messages ?st0 @
                  [AssistantMessage [TextBlock (concat (map block_text (content (llm ?env0 (messages ?st0)))))],
                   UserText (corrective ?env0 (toolCallCount ?st0))] \<rparr>))"
    using insufficient_tools_retry [of ?st0 ?env0] by blast
  then have a: "parseIntent_loop ?env0 ?st0 =
     (Inl (IterationsExceeded 10),
      \<lparr>messages = [UserText ''go'', AssistantMessage [TextBlock ''{}''],
                   UserText ''ERROR: You must call lyra_get_index_price AND lyra_find_liquid_options before outputting a TradeSpec. You have only made 1 tool calls. Please call the required tools now.''],
        iterations = 10, toolCallCount = 1, toolIdsProcessed = {''t1''}\<rparr>)"
    by (simp add: corrective_def)
  have e: "fst (parseIntent ?env1 ''go'') = Inr
       \<lparr>underlying = ''ETH'', strategy = ''Long Call'', expiry = ''20250110'',
        legs = [\<lparr>instrument_name = ''ETH-20250110-3500-C'', side = buy, amount = 1\<rparr>],
        max_cost_usd = 150, max_loss_usd = 200, explanation = ''ok''\<rparr>"
    by (simp add: parseIntent_def parseIntent_loop.simps MAX_ITERATIONS_def Let_def
        extractTradeSpec_def TradeSpecSchema_safeParse_def zod_string_min1_def
        zod_number_nonnegative_def zod_legs_def LegSchema_def zod_enum_side_def
        zod_number_positive_def enumerate_eq_zip)
  have b: "2 \<le> toolCallCount (snd (parseIntent_loop ?env1
      \<lparr> messages =
           [UserText (''Parse this trading intent and create an optimal trade using real market data:''
              @ [CHR 0x0A, CHR 0x0A, CHR 0x22] @ ''go'' @ [CHR 0x22, CHR 0x0A, CHR 0x0A]
              @ ''Remember: You MUST call lyra_get_index_price and lyra_find_liquid_options BEFORE outputting any TradeSpec.'')],
         iterations = 0, toolCallCount = 0, toolIdsProcessed = {} \<rparr>))"
    using insufficient_tools_retry [of _ ?env1] e unfolding parseIntent_def by blast
  show ?thesis
    using a b unfolding parseIntent_def by simp
qed

text \<open>
  Claim C7. \<open>parseIntent\<close> always returns, after at most 10 iterations (one request to
  the model each). From a state in which the bound is reached the loop raises the error
  that names the bound. Every TradeSpec that \<open>parseIntent\<close> returns is the result of the
  schema validation of a parsed JSON value, and has the validated shape.
\<close>

theorem parseIntent_bounded:
  "iterations (snd (parseIntent env intent)) \<le> 10
   \<and> (MAX_ITERATIONS \<le> iterations st \<longrightarrow>
        parseIntent_loop env st = (Inl (IterationsExceeded 10), st))
   \<and> (\<forall>spec. fst (parseIntent env intent) = Inr spec \<longrightarrow>
        valid_TradeSpec spec \<and>
        (\<exists>text parsed. json_parse env (json_candidate text) = Some parsed \<and>
                       TradeSpecSchema_safeParse parsed = Inr spec))"
proof (intro conjI allI impI)
  show "iterations (snd (parseIntent env intent)) \<le> 10"
    using loop_result [of _ env] unfolding parseIntent_def
    by (fastforce simp: MAX_ITERATIONS_def)
next
  assume "MAX_ITERATIONS \<le> iterations st"
  then show "parseIntent_loop env st = (Inl (IterationsExceeded 10), st)"
    using loop_stop [of st env] by (simp add: MAX_ITERATIONS_def)
next
  fix spec assume "fst (parseIntent env intent) = Inr spec"
  then obtain final where e: "extractTradeSpec (json_parse env) final = Inr spec"
    using loop_result [of _ env] unfolding parseIntent_def by blast
  from extractTradeSpec_Inr [OF e]
  show "\<exists>text parsed. json_parse env (json_candidate text) = Some parsed \<and>
                       TradeSpecSchema_safeParse parsed = Inr spec"
    by blast
  then show "valid_TradeSpec spec"
    by (auto dest: TradeSpecSchema_valid)
qed

theorem parseIntent_bounded_witness:
  "iterations (snd (parseIntent
     \<lparr>llm = (\<lambda>ms. if length ms = 1
                 then \<lparr>content = [ToolUseBlock ''t1'' ''lyra_get_index_price'' JNull,
                                  ToolUseBlock ''t2'' ''lyra_find_liquid_options'' JNull],
                       stop_reason = Some ''tool_use''\<rparr>
                 else \<lparr>content = [TextBlock ''{}''], stop_reason = Some ''end_turn''\<rparr>),
       executeLyraTool = (\<lambda>k name inp. Inr JNull),
       stringify = (\<lambda>j. ''null''),
       json_parse = (\<lambda>str. Some (JObj [(''underlying'', JStr ''ETH''), (''strategy'', JStr ''Long Call''),
          (''expiry'', JStr ''20250110''),
          (''legs'', JArr [JObj [(''instrument_name'', JStr ''ETH-20250110-3500-C''),
                                 (''side'', JStr ''buy''), (''amount'', JNum 1)]]),
          (''max_cost_usd'', JNum 150), (''max_loss_usd'', JNum 200),
          (''explanation'', JStr ''ok'')])),
       nat_to_string = (\<lambda>n. ''n'')\<rparr> ''go'')) \<le> 10
   \<and> parseIntent_loop
     \<lparr>llm = (\<lambda>ms. \<lparr>content = [TextBlock ''{}''], stop_reason = Some ''end_turn''\<rparr>),
       executeLyraTool = (\<lambda>k name inp. Inr JNull),
       stringify = (\<lambda>j. ''null''),
       json_parse = (\<lambda>str. None),
       nat_to_string = (\<lambda>n. ''n'')\<rparr>
     \<lparr>messages = [UserText ''go''], iterations = 10, toolCallCount = 0, toolIdsProcessed = {}\<rparr>
     = (Inl (IterationsExceeded 10),
        \<lparr>messages = [UserText ''go''], iterations = 10, toolCallCount = 0, toolIdsProcessed = {}\<rparr>)
   \<and> valid_TradeSpec
       \<lparr>underlying = ''ETH'', strategy = ''Long Call'', expiry = ''20250110'',
        legs = [\<lparr>instrument_name = ''ETH-20250110-3500-C'', side = buy, amount = 1\<rparr>],
        max_cost_usd = 150, max_loss_usd = 200, explanation = ''ok''\<rparr>"
proof -
  let ?env1 = "\<lparr>llm = (\<lambda>ms. if length ms = 1
                 then \<lparr>content = [ToolUseBlock ''t1'' ''lyra_get_index_price'' JNull,
                                  ToolUseBlock ''t2'' ''lyra_find_liquid_options'' JNull],
                       stop_reason = Some ''tool_use''\<rparr>
                 else \<lparr>content = [TextBlock ''{}''], stop_reason = Some ''end_turn''\<rparr>),
       executeLyraTool = (\<lambda>k name inp. Inr JNull),
       stringify = (\<lambda>j. ''null''),
       json_parse = (\<lambda>str. Some (JObj [(''underlying'', JStr ''ETH''), (''strategy'', JStr ''Long Call''),
          (''expiry'', JStr ''20250110''),
          (''legs'', JArr [JObj [(''instrument_name'', JStr ''ETH-20250110-3500-C''),
                                 (''side'', JStr ''buy''), (''amount'', JNum 1)]]),
          (''max_cost_usd'', JNum 150), (''max_loss_usd'', JNum 200),
          (''explanation'', JStr ''ok'')])),
       nat_to_string = (\<lambda>n. ''n'')\<rparr>"
  have e: "fst (parseIntent ?env1 ''go'') = Inr
       \<lparr>underlying = ''ETH'', strategy = ''Long Call'', expiry = ''20250110'',
        legs = [\<lparr>instrument_name = ''ETH-20250110-3500-C'', side = buy, amount = 1\<rparr>],
        max_cost_usd = 150, max_loss_usd = 200, explanation = ''ok''\<rparr>"
    by (simp add: parseIntent_def parseIntent_loop.simps MAX_ITERATIONS_def Let_def
        extractTradeSpec_def TradeSpecSchema_safeParse_def zod_string_min1_def
        zod_number_nonnegative_def zod_legs_def LegSchema_def zod_enum_side_def
        zod_number_positive_def enumerate_eq_zip)
  have a: "iterations (snd (parseIntent ?env1 ''go'')) \<le> 10"
    using parseIntent_bounded by blast
  have b: "parseIntent_loop
     \<lparr>llm = (\<lambda>ms. \<lparr>content = [TextBlock ''{}''], stop_reason = Some ''end_turn''\<rparr>),
       executeLyraTool = (\<lambda>k name inp. Inr JNull),
       stringify = (\<lambda>j. ''null''),
       json_parse = (\<lambda>str. None),
       nat_to_string = (\<lambda>n. ''n'')\<rparr>
     \<lparr>messages = [UserText ''go''], iterations = 10, toolCallCount = 0, toolIdsProcessed = {}\<rparr>
     = (Inl (IterationsExceeded 10),
        \<lparr>messages = [UserText ''go''], iterations = 10, toolCallCount = 0, toolIdsProcessed = {}\<rparr>)"
    using parseIntent_bounded
      [of _ _ "\<lparr>messages = [UserText ''go''], iterations = 10, toolCallCount = 0, toolIdsProcessed = {}\<rparr>"]
    by (simp add: MAX_ITERATIONS_def)
  have c: "valid_TradeSpec
       \<lparr>underlying = ''ETH'', strategy = ''Long Call'', expiry = ''20250110'',
        legs = [\<lparr>instrument_name = ''ETH-20250110-3500-C'', side = buy, amount = 1\<rparr>],
        max_cost_usd = 150, max_loss_usd = 200, explanation = ''ok''\<rparr>"
    using parseIntent_bounded [of ?env1 "''go''"] e by blast
  from a b c show ?thesis
    by (intro conjI)
qed

end
